theory Spec2Isabelle
  imports Main "HOL-Library.Word"
begin

unbundle bit_operations_syntax

section \<open>Go library functions used by the plugins\<close>

text \<open>
  Go strings are byte sequences; they are modelled as \<open>string\<close> (a list of \<open>char\<close>, one
  per byte). The functions of this section belong to the Go standard library, not to the
  repository.

  \<open>strings.ToLower\<close> and \<open>strings.TrimSpace\<close> work on Unicode text: they decode UTF-8,
  lower-case every Unicode letter, and trim every Unicode white-space character. The
  plugin code is modelled over any pair of functions in their place: a value of
  \<open>strings_pkg\<close> is passed to every function of the plugin that calls them, and the
  theorems hold for all such values, so for Go's functions too.
\<close>

record strings_pkg =
  ToLower :: "string \<Rightarrow> string"
  TrimSpace :: "string \<Rightarrow> string"

text \<open>
  On a string of ASCII bytes the two Go functions compute the following: \<open>A\<close> to \<open>Z\<close>
  become \<open>a\<close> to \<open>z\<close>; tab, line feed, vertical tab, form feed, carriage return and
  space are removed from both ends. \<open>ascii_strings\<close> stands in for the library in the
  concrete scenarios, whose arguments and address texts are ASCII.
\<close>

definition upperhalf :: string where
  "upperhalf = ''ABCDEFGHIJKLMNOPQRSTUVWXYZ''"

definition lowerhalf :: string where
  "lowerhalf = ''abcdefghijklmnopqrstuvwxyz''"

definition ascii_lower :: "char \<Rightarrow> char" where
  "ascii_lower c = (case map_of (zip upperhalf lowerhalf) c of Some l \<Rightarrow> l | None \<Rightarrow> c)"

definition ascii_ToLower :: "string \<Rightarrow> string" where
  "ascii_ToLower s = map ascii_lower s"

definition ascii_space :: "char \<Rightarrow> bool" where
  "ascii_space c = (c \<in> set [CHR 0x09, CHR 0x0A, CHR 0x0B, CHR 0x0C, CHR 0x0D, CHR '' ''])"

definition ascii_TrimSpace :: "string \<Rightarrow> string" where
  "ascii_TrimSpace s = rev (dropWhile ascii_space (rev (dropWhile ascii_space s)))"

definition ascii_strings :: strings_pkg where
  "ascii_strings = \<lparr>ToLower = ascii_ToLower, TrimSpace = ascii_TrimSpace\<rparr>"

text \<open>
  \<open>strings.ReplaceAll(s, old, new)\<close>: the non-overlapping instances of \<open>old\<close> are replaced
  from left to right, byte by byte. The plugin calls it with a non-empty \<open>old\<close> only;
  with an empty \<open>old\<close> Go inserts \<open>new\<close> before every character and at the end, which
  the first branch gives for ASCII text.
\<close>

definition HasPrefix :: "string \<Rightarrow> string \<Rightarrow> bool" where
  "HasPrefix s p = (take (length p) s = p)"

function strings_ReplaceAll :: "string \<Rightarrow> string \<Rightarrow> string \<Rightarrow> string" where
  "strings_ReplaceAll s old new =
     (if old = [] then concat (map (\<lambda>c. new @ [c]) s) @ new
      else if s = [] then []
      else if HasPrefix s old then new @ strings_ReplaceAll (drop (length old) s) old new
      else hd s # strings_ReplaceAll (tl s) old new)"
  by pat_completeness auto
termination
  by (relation "measure (\<lambda>(s, old, new). length s)") auto

declare strings_ReplaceAll.simps [simp del]

text \<open>
  \<open>net.HardwareAddr\<close> is a byte slice; its \<open>String\<close> method prints each byte as two
  lower-case hexadecimal digits, the bytes separated by colons, and the empty address as
  the empty string.
\<close>

type_synonym HardwareAddr = "8 word list"

definition hexDigit :: string where
  "hexDigit = ''0123456789abcdef''"

definition hexByte :: "8 word \<Rightarrow> string" where
  "hexByte b = [hexDigit ! unat (drop_bit 4 b), hexDigit ! unat (b AND 0xF)]"

fun HardwareAddr_String :: "HardwareAddr \<Rightarrow> string" where
  "HardwareAddr_String [] = []"
| "HardwareAddr_String [b] = hexByte b"
| "HardwareAddr_String (b # bs) = hexByte b @ CHR '':'' # HardwareAddr_String bs"

text \<open>
  A Go \<open>map[string]bool\<close> is kept as an association list. Reading a missing key gives the
  zero value \<open>false\<close>; \<open>len\<close> counts the keys.
\<close>

type_synonym boolmap = "(string \<times> bool) list"

definition map_index :: "boolmap \<Rightarrow> string \<Rightarrow> bool" where
  "map_index m k = (case map_of m k of None \<Rightarrow> False | Some b \<Rightarrow> b)"

fun map_assign :: "boolmap \<Rightarrow> string \<Rightarrow> bool \<Rightarrow> boolmap" where
  "map_assign [] k v = [(k, v)]"
| "map_assign ((k', v') # m) k v = (if k' = k then (k, v) # m else (k', v') # map_assign m k v)"

definition map_len :: "boolmap \<Rightarrow> nat" where
  "map_len m = length (remdups (map fst m))"

section \<open>The DHCP packets, as the handlers see them\<close>

text \<open>
  Packet parsing belongs to the external DHCP codec. A request is represented by the values
  the handlers read from it through the codec's accessors; a reply by the options the
  handlers write. \<open>ClientArch\<close> is the list of architecture codes the client sent,
  \<open>ParameterRequestList\<close> the option codes the client listed in its parameter request
  list (option 55), \<open>None\<close> (Go's nil) when the request carries no such list;
  \<open>ExtractMAC\<close> and \<open>GetInnerMessage\<close> are the codec's result or error. A handler
  receives its reply as a pointer, which may be nil: the reply argument is an \<open>option\<close>,
  and \<open>None\<close> is the nil pointer.
\<close>

type_synonym OptionCode4 = "8 word"
type_synonym OptionCode6 = "16 word"
type_synonym Arch = "16 word"

record DHCPv4_req =
  ClientHWAddr :: HardwareAddr
  ClientArch :: "Arch list"
  ParameterRequestList :: "OptionCode4 list option"

text \<open>
  The codec's \<open>IsOptionRequested\<close>: without a parameter request list every option counts
  as requested (the codec reads RFC 2131 so); with one, the codes it lists.
\<close>

definition IsOptionRequested :: "DHCPv4_req \<Rightarrow> OptionCode4 \<Rightarrow> bool" where
  "IsOptionRequested req requested =
     (case ParameterRequestList req of
        None \<Rightarrow> True
      | Some rq \<Rightarrow> requested \<in> set rq)"

record DHCPv4_resp =
  Options :: "OptionCode4 \<rightharpoonup> string"

record Message6 =
  RequestedOptions :: "OptionCode6 list"

record DHCPv6_req =
  ExtractMAC :: "string + HardwareAddr"
  GetInnerMessage :: "string + Message6"

record Option6 =
  OptionCode :: OptionCode6
  OptionData :: string

record DHCPv6_resp =
  Options6 :: "Option6 list"

section \<open>plugins/whitelist\<close>

text \<open>The package variable \<open>whitelistedMACs\<close>; \<open>None\<close> is the nil map.\<close>

record whitelist_globals =
  whitelistedMACs :: "boolmap option"

definition whitelist_init :: whitelist_globals where
  "whitelist_init = \<lparr>whitelistedMACs = None\<rparr>"

definition Handler6 ::
  "strings_pkg \<Rightarrow> whitelist_globals \<Rightarrow> DHCPv6_req \<Rightarrow> DHCPv6_resp option
     \<Rightarrow> DHCPv6_resp option \<times> bool" where
  "Handler6 strings g req resp =
     (case whitelistedMACs g of
        None \<Rightarrow> (resp, False)
      | Some m \<Rightarrow>
          if map_len m = 0 then (resp, False)
          else (case ExtractMAC req of
                  Inl err \<Rightarrow> (None, True)
                | Inr mac \<Rightarrow>
                    let macStr = ToLower strings (HardwareAddr_String mac)
                    in if \<not> map_index m macStr then (None, True) else (resp, False)))"

definition Handler4 ::
  "strings_pkg \<Rightarrow> whitelist_globals \<Rightarrow> DHCPv4_req \<Rightarrow> DHCPv4_resp option
     \<Rightarrow> DHCPv4_resp option \<times> bool" where
  "Handler4 strings g req resp =
     (case whitelistedMACs g of
        None \<Rightarrow> (resp, False)
      | Some m \<Rightarrow>
          if map_len m = 0 then (resp, False)
          else let macStr = ToLower strings (HardwareAddr_String (ClientHWAddr req))
               in if \<not> map_index m macStr then (None, True) else (resp, False))"

text \<open>The loop over the arguments that both setup functions run on a fresh map.\<close>

fun add_args :: "strings_pkg \<Rightarrow> string list \<Rightarrow> boolmap \<Rightarrow> boolmap" where
  "add_args strings [] m = m"
| "add_args strings (arg # args) m =
     (let mac = ToLower strings (TrimSpace strings arg)
      in if length mac > 0 then add_args strings args (map_assign m mac True)
         else add_args strings args m)"

text \<open>
  Both setup functions return their handler and a nil error on every input; what they
  change is the package variable, which the model returns.
\<close>

definition whitelist_setup6 ::
  "strings_pkg \<Rightarrow> string list \<Rightarrow> whitelist_globals \<Rightarrow> whitelist_globals" where
  "whitelist_setup6 strings args g = g\<lparr>whitelistedMACs := Some (add_args strings args [])\<rparr>"

definition whitelist_setup4 ::
  "strings_pkg \<Rightarrow> string list \<Rightarrow> whitelist_globals \<Rightarrow> whitelist_globals" where
  "whitelist_setup4 strings args g =
     (if whitelistedMACs g = None then g\<lparr>whitelistedMACs := Some (add_args strings args [])\<rparr>
      else g)"

section \<open>Go's net/url: the URL value and its String method\<close>

text \<open>
  \<open>url.URL\<close> with the fields of the Go standard library, and \<open>URL.String\<close> with the
  helpers it calls (\<open>shouldEscape\<close>, \<open>escape\<close>, \<open>unescape\<close>, \<open>validEncoded\<close>,
  \<open>EscapedPath\<close>, \<open>EscapedFragment\<close>, \<open>Userinfo.String\<close>). \<open>url.Parse\<close> is not
  modelled: the handlers start from a parsed URL.
\<close>

record Userinfo =
  username :: string
  password :: string
  passwordSet :: bool

record URL =
  Scheme :: string
  Opaque :: string
  User :: "Userinfo option"
  Host :: string
  Path :: string
  RawPath :: string
  OmitHost :: bool
  ForceQuery :: bool
  RawQuery :: string
  Fragment :: string
  RawFragment :: string

datatype encoding =
  encodePath | encodePathSegment | encodeHost | encodeZone
  | encodeUserPassword | encodeQueryComponent | encodeFragment

definition alphanum :: string where
  "alphanum = ''abcdefghijklmnopqrstuvwxyzABCDEFGHIJKLMNOPQRSTUVWXYZ0123456789''"

definition shouldEscape :: "char \<Rightarrow> encoding \<Rightarrow> bool" where
  "shouldEscape c mode =
     (if c \<in> set alphanum then False
      else if (mode = encodeHost \<or> mode = encodeZone)
              \<and> c \<in> set (''!$&()*+,;=:[]<>'' @ [CHR 0x27, CHR 0x22]) then False
      else if c \<in> set ''-_.~'' then False
      else if c \<in> set ''$&+,/:;=?@'' then
        (case mode of
           encodePath \<Rightarrow> c = CHR ''?''
         | encodePathSegment \<Rightarrow> c \<in> set ''/;,?''
         | encodeUserPassword \<Rightarrow> c \<in> set ''@/?:''
         | encodeQueryComponent \<Rightarrow> True
         | encodeFragment \<Rightarrow> False
         | encodeHost \<Rightarrow> True
         | encodeZone \<Rightarrow> True)
      else if mode = encodeFragment \<and> c \<in> set ''!()*'' then False
      else True)"

definition upperhex :: string where
  "upperhex = ''0123456789ABCDEF''"

definition escape_char :: "encoding \<Rightarrow> char \<Rightarrow> string" where
  "escape_char mode c =
     (if c = CHR '' '' \<and> mode = encodeQueryComponent then ''+''
      else if shouldEscape c mode
        then [CHR ''%'', upperhex ! ((of_char c :: nat) div 16), upperhex ! ((of_char c :: nat) mod 16)]
      else [c])"

definition escape :: "string \<Rightarrow> encoding \<Rightarrow> string" where
  "escape s mode = concat (map (escape_char mode) s)"

definition ishex :: "char \<Rightarrow> bool" where
  "ishex c = (c \<in> set ''0123456789abcdefABCDEF'')"

definition unhex :: "char \<Rightarrow> nat" where
  "unhex c =
     (if c \<in> set ''0123456789'' then of_char c - of_char CHR ''0''
      else if c \<in> set ''abcdef'' then of_char c - of_char CHR ''a'' + 10
      else if c \<in> set ''ABCDEF'' then of_char c - of_char CHR ''A'' + 10
      else 0)"

datatype url_error = EscapeError string | InvalidHostError string

fun unescape :: "string \<Rightarrow> encoding \<Rightarrow> url_error + string" where
  "unescape [] mode = Inr []"
| "unescape (c # s) mode =
     (if c = CHR ''%'' then
        (case s of
           h1 # h2 # rest \<Rightarrow>
             if \<not> ishex h1 \<or> \<not> ishex h2 then Inl (EscapeError (take 3 (c # s)))
             else if mode = encodeHost \<and> unhex h1 < 8 \<and> [c, h1, h2] \<noteq> ''%25''
               then Inl (EscapeError [c, h1, h2])
             else if mode = encodeZone \<and> [c, h1, h2] \<noteq> ''%25''
                     \<and> (char_of (unhex h1 * 16 + unhex h2) :: char) \<noteq> CHR '' ''
                     \<and> shouldEscape (char_of (unhex h1 * 16 + unhex h2)) encodeHost
               then Inl (EscapeError [c, h1, h2])
             else (case unescape rest mode of
                     Inl e \<Rightarrow> Inl e
                   | Inr t \<Rightarrow> Inr (char_of (unhex h1 * 16 + unhex h2) # t))
         | _ \<Rightarrow> Inl (EscapeError (take 3 (c # s))))
      else if (mode = encodeHost \<or> mode = encodeZone) \<and> (of_char c :: nat) < 0x80
              \<and> shouldEscape c encodeHost
        then Inl (InvalidHostError [c])
      else (case unescape s mode of
              Inl e \<Rightarrow> Inl e
            | Inr t \<Rightarrow>
                Inr ((if c = CHR ''+'' \<and> mode = encodeQueryComponent then CHR '' '' else c) # t)))"

definition validEncoded :: "string \<Rightarrow> encoding \<Rightarrow> bool" where
  "validEncoded s mode =
     list_all (\<lambda>c. c \<in> set (''!$&()*+,;=:@[]%'' @ [CHR 0x27]) \<or> \<not> shouldEscape c mode) s"

definition EscapedPath :: "URL \<Rightarrow> string" where
  "EscapedPath u =
     (if RawPath u \<noteq> [] \<and> validEncoded (RawPath u) encodePath
         \<and> unescape (RawPath u) encodePath = Inr (Path u)
      then RawPath u
      else if Path u = ''*'' then ''*''
      else escape (Path u) encodePath)"

definition EscapedFragment :: "URL \<Rightarrow> string" where
  "EscapedFragment u =
     (if RawFragment u \<noteq> [] \<and> validEncoded (RawFragment u) encodeFragment
         \<and> unescape (RawFragment u) encodeFragment = Inr (Fragment u)
      then RawFragment u
      else escape (Fragment u) encodeFragment)"

definition Userinfo_String :: "Userinfo \<Rightarrow> string" where
  "Userinfo_String ui =
     (let s = escape (username ui) encodeUserPassword
      in if passwordSet ui then s @ '':'' @ escape (password ui) encodeUserPassword else s)"

definition URL_String :: "URL \<Rightarrow> string" where
  "URL_String u =
     (let buf = (if Scheme u \<noteq> [] then Scheme u @ '':'' else []);
          buf =
            (if Opaque u \<noteq> [] then buf @ Opaque u
             else
               let buf =
                     (if Scheme u \<noteq> [] \<or> Host u \<noteq> [] \<or> User u \<noteq> None then
                        (if OmitHost u \<and> Host u = [] \<and> User u = None then buf
                         else
                           let buf = (if Host u \<noteq> [] \<or> Path u \<noteq> [] \<or> User u \<noteq> None
                                      then buf @ ''//'' else buf);
                               buf = (case User u of
                                        Some ui \<Rightarrow> buf @ Userinfo_String ui @ ''@''
                                      | None \<Rightarrow> buf)
                           in if Host u \<noteq> [] then buf @ escape (Host u) encodeHost else buf)
                      else buf);
                   path = EscapedPath u;
                   buf = (if path \<noteq> [] \<and> hd path \<noteq> CHR ''/'' \<and> Host u \<noteq> []
                          then buf @ ''/'' else buf);
                   buf = (if buf = [] \<and> CHR '':'' \<in> set (takeWhile (\<lambda>c. c \<noteq> CHR ''/'') path)
                          then buf @ ''./'' else buf)
               in buf @ path);
          buf = (if ForceQuery u \<or> RawQuery u \<noteq> [] then buf @ ''?'' @ RawQuery u else buf)
      in if Fragment u \<noteq> [] then buf @ ''#'' @ EscapedFragment u else buf)"

section \<open>plugins/nbp\<close>

text \<open>
  The option codes and architecture codes are constants of the DHCP codec: TFTP server name
  is DHCPv4 option 66 and boot file name option 67, the boot file URL is DHCPv6 option 59
  and its parameters option 60 (the plugin's variables \<open>opt66\<close>, \<open>opt67\<close>, \<open>opt59\<close>,
  \<open>opt60\<close> are named after them); the architecture codes are those of the IANA processor
  architecture registry.
\<close>

definition OptionTFTPServerName :: OptionCode4 where
  "OptionTFTPServerName = 66"

definition OptionBootfileName :: OptionCode4 where
  "OptionBootfileName = 67"

definition OptionBootfileURL :: OptionCode6 where
  "OptionBootfileURL = 59"

definition OptionBootfileParam :: OptionCode6 where
  "OptionBootfileParam = 60"

definition INTEL_X86PC :: Arch where
  "INTEL_X86PC = 0"

definition EFI_X86_64 :: Arch where
  "EFI_X86_64 = 7"

definition EFI_ARM64 :: Arch where
  "EFI_ARM64 = 11"

record Option4 =
  Code :: OptionCode4
  Value :: string

definition OptTFTPServerName :: "string \<Rightarrow> Option4" where
  "OptTFTPServerName name = \<lparr>Code = OptionTFTPServerName, Value = name\<rparr>"

definition OptBootFileName :: "string \<Rightarrow> Option4" where
  "OptBootFileName name = \<lparr>Code = OptionBootfileName, Value = name\<rparr>"

definition OptBootFileURL :: "string \<Rightarrow> Option6" where
  "OptBootFileURL url = \<lparr>OptionCode = OptionBootfileURL, OptionData = url\<rparr>"

text \<open>
  Writing through a nil reply pointer is a run-time panic in Go; it is the one way the
  handlers of this plugin can fail to return.
\<close>

datatype panic = nil_pointer_dereference

text \<open>\<open>resp.Options.Update(opt)\<close> stores the option's value under its code.\<close>

definition Options_Update :: "DHCPv4_resp option \<Rightarrow> Option4 \<Rightarrow> panic + DHCPv4_resp option" where
  "Options_Update resp opt =
     (case resp of
        None \<Rightarrow> Inl nil_pointer_dereference
      | Some r \<Rightarrow> Inr (Some (r\<lparr>Options := (Options r)(Code opt \<mapsto> Value opt)\<rparr>)))"

text \<open>\<open>resp.AddOption(opt)\<close> appends the option to the reply's options.\<close>

definition AddOption :: "DHCPv6_resp option \<Rightarrow> Option6 \<Rightarrow> panic + DHCPv6_resp option" where
  "AddOption resp opt =
     (case resp of
        None \<Rightarrow> Inl nil_pointer_dereference
      | Some r \<Rightarrow> Inr (Some (r\<lparr>Options6 := Options6 r @ [opt]\<rparr>)))"

definition getArchString :: "Arch list \<Rightarrow> string" where
  "getArchString archs =
     (if length archs = 0 then ''default''
      else if archs ! 0 = EFI_X86_64 then ''x86''
      else if archs ! 0 = EFI_ARM64 then ''arm64''
      else if archs ! 0 = INTEL_X86PC then ''x86legacy''
      else ''unknown'')"

datatype nbp_error = WrongArgumentCount nat | ParseError string

definition parseArgs :: "(string \<Rightarrow> string + URL) \<Rightarrow> string list \<Rightarrow> nbp_error + URL" where
  "parseArgs url_Parse args =
     (if length args \<noteq> 1 then Inl (WrongArgumentCount (length args))
      else (case url_Parse (args ! 0) of Inl e \<Rightarrow> Inl (ParseError e) | Inr u \<Rightarrow> Inr u))"

text \<open>
  The handler that \<open>setup4\<close> returns is a closure over the parsed URL \<open>u\<close>. Its body has
  three parts. First, the working copy \<open>modifiedURL\<close> with the placeholders of its path
  replaced:
\<close>

definition modifiedURL_of :: "URL \<Rightarrow> string \<Rightarrow> URL" where
  "modifiedURL_of u archStr =
     (let modifiedURL = u;
          modifiedURL = modifiedURL\<lparr>Path := strings_ReplaceAll (Path modifiedURL) ''{arch}'' archStr\<rparr>
      in if archStr = ''x86''
           then modifiedURL\<lparr>Path := strings_ReplaceAll (Path modifiedURL) ''{efi}'' ''grubx64.efi''\<rparr>
         else if archStr = ''arm64''
           then modifiedURL\<lparr>Path := strings_ReplaceAll (Path modifiedURL) ''{efi}'' ''grubaa64.efi''\<rparr>
         else if archStr = ''x86legacy''
           then modifiedURL\<lparr>Path := strings_ReplaceAll (Path modifiedURL) ''{efi}'' ''grub.0''\<rparr>
         else modifiedURL\<lparr>Path := strings_ReplaceAll (Path modifiedURL) ''{efi}'' ''unknown.efi''\<rparr>)"

text \<open>Second, the two candidate options \<open>(tftpOpt, bootOpt)\<close>; \<open>None\<close> is a nil pointer:\<close>

definition generateOptions :: "URL \<Rightarrow> Option4 option \<times> Option4 option" where
  "generateOptions modifiedURL =
     (if Scheme modifiedURL = ''http'' \<or> Scheme modifiedURL = ''https''
         \<or> Scheme modifiedURL = ''ftp''
      then (None, Some (OptBootFileName (URL_String modifiedURL)))
      else (Some (OptTFTPServerName (Host modifiedURL)),
            Some (OptBootFileName (Path modifiedURL))))"

text \<open>Third, the update of the reply:\<close>

definition updateOptions ::
  "Option4 option \<Rightarrow> Option4 option \<Rightarrow> DHCPv4_req \<Rightarrow> DHCPv4_resp option
     \<Rightarrow> panic + DHCPv4_resp option" where
  "updateOptions tftpOpt bootOpt req resp =
     (case (case tftpOpt of
              Some tftp \<Rightarrow>
                if IsOptionRequested req OptionTFTPServerName then Options_Update resp tftp
                else Inr resp
            | None \<Rightarrow> Inr resp) of
        Inl p \<Rightarrow> Inl p
      | Inr resp \<Rightarrow>
          (case bootOpt of
             Some boot \<Rightarrow>
               if IsOptionRequested req OptionBootfileName then Options_Update resp boot
               else Inr resp
           | None \<Rightarrow> Inr resp))"

text \<open>
  The closure itself, as a function of the URL value that \<open>u\<close> points to. Besides the
  pair (reply, stop) that the Go function returns, the result carries that URL value; that
  the call leaves the pointed-to URL as it is, is a theorem about the closure on the
  explicit store, \<open>nbp_handler4_store\<close> below.
\<close>

definition nbp_handler4 ::
  "URL \<Rightarrow> DHCPv4_req \<Rightarrow> DHCPv4_resp option \<Rightarrow> panic + ((DHCPv4_resp option \<times> bool) \<times> URL)" where
  "nbp_handler4 u req resp =
     (let archs = ClientArch req;
          archStr = getArchString archs;
          modifiedURL = modifiedURL_of u archStr;
          (tftpOpt, bootOpt) = generateOptions modifiedURL
      in case updateOptions tftpOpt bootOpt req resp of
           Inl p \<Rightarrow> Inl p
         | Inr resp \<Rightarrow> Inr ((resp, True), u))"

definition nbp_setup4 ::
  "(string \<Rightarrow> string + URL) \<Rightarrow> string list \<Rightarrow>
     nbp_error + (DHCPv4_req \<Rightarrow> DHCPv4_resp option \<Rightarrow> panic + ((DHCPv4_resp option \<times> bool) \<times> URL))" where
  "nbp_setup4 url_Parse args =
     (case parseArgs url_Parse args of
        Inl err \<Rightarrow> Inl err
      | Inr u \<Rightarrow> Inr (nbp_handler4 u))"

text \<open>
  The same closure with Go's store written out. The captured \<open>u\<close> is a pointer: an
  address in a store of URL objects, cell \<open>i\<close> of the list holding the object at address
  \<open>i\<close>. \<open>modifiedURL := *u\<close> declares a struct variable, which gets a cell of its own
  holding a copy of what \<open>u\<close> points to (the copy is shallow; the one pointer field of a
  URL, \<open>User\<close>, is read but never written through by the closure). An assignment
  \<open>x.Path = s\<close> writes the cell of \<open>x\<close>. The closure returns the pair (reply, stop) or
  panics; the model returns, in both cases, the store as the body leaves it as well.
\<close>

type_synonym ptr = nat
type_synonym store = "URL list"

definition deref :: "store \<Rightarrow> ptr \<Rightarrow> panic + URL" where
  "deref h p = (if p < length h then Inr (h ! p) else Inl nil_pointer_dereference)"

definition declare_var :: "store \<Rightarrow> URL \<Rightarrow> ptr \<times> store" where
  "declare_var h initial = (length h, h @ [initial])"

definition assign_Path :: "store \<Rightarrow> ptr \<Rightarrow> string \<Rightarrow> store" where
  "assign_Path h x s = h[x := (h ! x)\<lparr>Path := s\<rparr>]"

definition nbp_handler4_store ::
  "ptr \<Rightarrow> store \<Rightarrow> DHCPv4_req \<Rightarrow> DHCPv4_resp option
     \<Rightarrow> (panic + (DHCPv4_resp option \<times> bool)) \<times> store" where
  "nbp_handler4_store u h req resp =
     (let archs = ClientArch req;
          archStr = getArchString archs
      in case deref h u of
           Inl p \<Rightarrow> (Inl p, h)
         | Inr pointee \<Rightarrow>
             let (modifiedURL, h) = declare_var h pointee;
                 h = assign_Path h modifiedURL
                       (strings_ReplaceAll (Path (h ! modifiedURL)) ''{arch}'' archStr);
                 h = (if archStr = ''x86''
                        then assign_Path h modifiedURL
                               (strings_ReplaceAll (Path (h ! modifiedURL)) ''{efi}'' ''grubx64.efi'')
                      else if archStr = ''arm64''
                        then assign_Path h modifiedURL
                               (strings_ReplaceAll (Path (h ! modifiedURL)) ''{efi}'' ''grubaa64.efi'')
                      else if archStr = ''x86legacy''
                        then assign_Path h modifiedURL
                               (strings_ReplaceAll (Path (h ! modifiedURL)) ''{efi}'' ''grub.0'')
                      else assign_Path h modifiedURL
                               (strings_ReplaceAll (Path (h ! modifiedURL)) ''{efi}'' ''unknown.efi''));
                 (tftpOpt, bootOpt) = generateOptions (h ! modifiedURL)
             in case updateOptions tftpOpt bootOpt req resp of
                  Inl p \<Rightarrow> (Inl p, h)
                | Inr resp \<Rightarrow> (Inr (resp, True), h))"

text \<open>The package variables of the DHCPv6 side; \<open>None\<close> is nil.\<close>

record nbp_globals =
  opt59 :: "Option6 option"
  opt60 :: "Option6 option"

definition nbp_init :: nbp_globals where
  "nbp_init = \<lparr>opt59 = None, opt60 = None\<rparr>"

text \<open>
  \<open>setup6\<close>; \<open>u.Query().Get\<close> is Go's query-string lookup, taken as a parameter like
  \<open>url.Parse\<close>. It returns \<open>nbpHandler6\<close> or the error, and the package variables.
\<close>

definition nbp_setup6 ::
  "(string \<Rightarrow> string + URL) \<Rightarrow> (URL \<Rightarrow> string \<Rightarrow> string) \<Rightarrow> string list \<Rightarrow> nbp_globals
     \<Rightarrow> nbp_error option \<times> nbp_globals" where
  "nbp_setup6 url_Parse Query_Get args g =
     (case parseArgs url_Parse args of
        Inl err \<Rightarrow> (Some err, g)
      | Inr u \<Rightarrow>
          let g = g\<lparr>opt59 := Some (OptBootFileURL (URL_String u))\<rparr>;
              params = Query_Get u ''params'';
              g = (if params \<noteq> []
                   then g\<lparr>opt60 := Some \<lparr>OptionCode = OptionBootfileParam, OptionData = params\<rparr>\<rparr>
                   else g)
          in (None, g))"

text \<open>The loop of \<open>nbpHandler6\<close> over the requested option codes.\<close>

fun addRequested ::
  "Option6 \<Rightarrow> Option6 option \<Rightarrow> OptionCode6 list \<Rightarrow> DHCPv6_resp option
     \<Rightarrow> panic + DHCPv6_resp option" where
  "addRequested o59 o60 [] resp = Inr resp"
| "addRequested o59 o60 (code # codes) resp =
     (if code = OptionBootfileURL then
        (case AddOption resp o59 of
           Inl p \<Rightarrow> Inl p
         | Inr resp \<Rightarrow> addRequested o59 o60 codes resp)
      else if code = OptionBootfileParam then
        (case o60 of
           Some param \<Rightarrow>
             (case AddOption resp param of
                Inl p \<Rightarrow> Inl p
              | Inr resp \<Rightarrow> addRequested o59 o60 codes resp)
         | None \<Rightarrow> addRequested o59 o60 codes resp)
      else addRequested o59 o60 codes resp)"

definition nbpHandler6 ::
  "nbp_globals \<Rightarrow> DHCPv6_req \<Rightarrow> DHCPv6_resp option \<Rightarrow> panic + (DHCPv6_resp option \<times> bool)" where
  "nbpHandler6 g req resp =
     (case opt59 g of
        None \<Rightarrow> Inr (resp, True)
      | Some o59 \<Rightarrow>
          (case GetInnerMessage req of
             Inl err \<Rightarrow> Inr (None, True)
           | Inr decap \<Rightarrow>
               (case addRequested o59 (opt60 g) (RequestedOptions decap) resp of
                  Inl p \<Rightarrow> Inl p
                | Inr resp \<Rightarrow> Inr (resp, True))))"

section \<open>Notions of the specification\<close>

text \<open>
  The allow-set of the specification is the key set of the map; an unconfigured (nil) map
  has none. \<open>normalize\<close> is what setup does to each argument before storing it.
\<close>

definition keys :: "boolmap \<Rightarrow> string set" where
  "keys m = fst ` set m"

definition allowSet :: "whitelist_globals \<Rightarrow> string set" where
  "allowSet g = (case whitelistedMACs g of None \<Rightarrow> {} | Some m \<Rightarrow> keys m)"

definition normalize :: "strings_pkg \<Rightarrow> string \<Rightarrow> string" where
  "normalize strings arg = ToLower strings (TrimSpace strings arg)"

definition all_true :: "boolmap \<Rightarrow> bool" where
  "all_true m = list_all snd m"

text \<open>
  The values of the package variable that exist at run time: nil at program start, then
  whatever the host's calls of the two setup functions leave behind, in any order.
\<close>

inductive reachable :: "strings_pkg \<Rightarrow> whitelist_globals \<Rightarrow> bool" for strings where
  start: "reachable strings whitelist_init"
| after_setup6: "reachable strings g \<Longrightarrow> reachable strings (whitelist_setup6 strings args g)"
| after_setup4: "reachable strings g \<Longrightarrow> reachable strings (whitelist_setup4 strings args g)"

text \<open>
  The bootloader table of the specification, keyed on the short architecture form, and
  the occurrence of a placeholder in a path.
\<close>

definition bootloader :: "string \<Rightarrow> string" where
  "bootloader short =
     (if short = ''x86'' then ''grubx64.efi''
      else if short = ''arm64'' then ''grubaa64.efi''
      else if short = ''x86legacy'' then ''grub.0''
      else ''unknown.efi'')"

definition shortForms :: "string list" where
  "shortForms = [''x86'', ''arm64'', ''x86legacy'', ''unknown'', ''default'']"

fun Contains :: "string \<Rightarrow> string \<Rightarrow> bool" where
  "Contains [] sub = (sub = [])"
| "Contains (c # s) sub = (HasPrefix (c # s) sub \<or> Contains s sub)"

text \<open>
  \<open>clash new v\<close>: the text \<open>new\<close> and every non-empty suffix of \<open>v\<close> differ within
  the length of the shorter one, so that no suffix of \<open>v\<close> can begin where \<open>new\<close> does.
\<close>

fun clash :: "string \<Rightarrow> string \<Rightarrow> bool" where
  "clash new [] = True"
| "clash new (y # v) =
     (take (min (length new) (Suc (length v))) new
        \<noteq> take (min (length new) (Suc (length v))) (y # v)
      \<and> clash new v)"

text \<open>The path that the handler computes from a template path and a short form.\<close>

definition resolvedPath :: "string \<Rightarrow> string \<Rightarrow> string" where
  "resolvedPath p short =
     Path (modifiedURL_of
       \<lparr>Scheme = [], Opaque = [], User = None, Host = [], Path = p, RawPath = [],
        OmitHost = False, ForceQuery = False, RawQuery = [], Fragment = [], RawFragment = []\<rparr>
       short)"

text \<open>
  The option codes that the client requested explicitly: those of its parameter request
  list, none when it sent no list.
\<close>

definition explicitlyRequested :: "DHCPv4_req \<Rightarrow> OptionCode4 set" where
  "explicitlyRequested req = (case ParameterRequestList req of None \<Rightarrow> {} | Some rq \<Rightarrow> set rq)"

text \<open>
  The resolved boot selection of the specification: the transfer-server value and the
  boot-file value for a working URL (step 4 of the resolver), and the emission policy: a
  value is written into the reply's options if it was computed and its code counts as
  requested for the codec, the two options being decided independently.
\<close>

definition bootValues :: "URL \<Rightarrow> string option \<times> string option" where
  "bootValues working =
     (if Scheme working \<in> {''http'', ''https'', ''ftp''}
      then (None, Some (URL_String working))
      else (Some (Host working), Some (Path working)))"

definition emitted ::
  "string option \<times> string option \<Rightarrow> DHCPv4_req \<Rightarrow> (OptionCode4 \<rightharpoonup> string)
     \<Rightarrow> (OptionCode4 \<rightharpoonup> string)" where
  "emitted selection req opts =
     (\<lambda>c. if c = OptionBootfileName \<and> snd selection \<noteq> None
                \<and> IsOptionRequested req OptionBootfileName then snd selection
          else if c = OptionTFTPServerName \<and> fst selection \<noteq> None
                \<and> IsOptionRequested req OptionTFTPServerName then fst selection
          else opts c)"

text \<open>
  The options that \<open>nbpHandler6\<close> has to add for a list of requested codes: the boot
  file URL option for every occurrence of its code, the parameter option for every
  occurrence of its code if one is configured.
\<close>

definition additions :: "Option6 \<Rightarrow> Option6 option \<Rightarrow> OptionCode6 list \<Rightarrow> Option6 list" where
  "additions o59 o60 codes =
     concat (map (\<lambda>code. if code = OptionBootfileURL then [o59]
                         else if code = OptionBootfileParam
                           then (case o60 of Some param \<Rightarrow> [param] | None \<Rightarrow> [])
                         else []) codes)"

section \<open>Concrete requests, replies and templates\<close>

definition scenario_globals :: whitelist_globals where
  "scenario_globals =
     whitelist_setup6 ascii_strings ['' 00:11:22:33:44:55 '', ''AA:BB:CC:DD:EE:FF'']
       whitelist_init"

definition request4_from :: "HardwareAddr \<Rightarrow> DHCPv4_req" where
  "request4_from mac = \<lparr>ClientHWAddr = mac, ClientArch = [], ParameterRequestList = Some []\<rparr>"

definition request6_from :: "string + HardwareAddr \<Rightarrow> DHCPv6_req" where
  "request6_from mac =
     \<lparr>ExtractMAC = mac, GetInnerMessage = Inr \<lparr>RequestedOptions = []\<rparr>\<rparr>"

text \<open>
  A PXE request: the client's architecture list and the option codes of its parameter
  request list; and a request that carries no parameter request list.
\<close>

definition pxe_request :: "Arch list \<Rightarrow> OptionCode4 list \<Rightarrow> DHCPv4_req" where
  "pxe_request archs codes =
     \<lparr>ClientHWAddr = [0x00, 0x11, 0x22, 0x33, 0x44, 0x55], ClientArch = archs,
      ParameterRequestList = Some codes\<rparr>"

definition request_without_list :: "Arch list \<Rightarrow> DHCPv4_req" where
  "request_without_list archs =
     \<lparr>ClientHWAddr = [0x00, 0x11, 0x22, 0x33, 0x44, 0x55], ClientArch = archs,
      ParameterRequestList = None\<rparr>"

definition request6_asking :: "OptionCode6 list \<Rightarrow> DHCPv6_req" where
  "request6_asking codes =
     \<lparr>ExtractMAC = Inr [0xAA, 0xBB, 0xCC, 0xDD, 0xEE, 0xFF],
      GetInnerMessage = Inr \<lparr>RequestedOptions = codes\<rparr>\<rparr>"

definition empty_reply4 :: DHCPv4_resp where
  "empty_reply4 = \<lparr>Options = Map.empty\<rparr>"

definition empty_reply6 :: DHCPv6_resp where
  "empty_reply6 = \<lparr>Options6 = []\<rparr>"

text \<open>
  What \<open>url.Parse\<close> returns for \<open>tftp://10.0.0.1/pxe/{arch}\<close>,
  \<open>http://boot.example/{arch}.ipxe\<close> and \<open>tftp://10.0.0.1/boot/{arch}/{efi}\<close>. The braces
  are not in the default encoding of a path, so Parse keeps the original text in RawPath.
\<close>

definition parsed :: "string \<Rightarrow> string \<Rightarrow> string \<Rightarrow> URL" where
  "parsed scheme host path =
     \<lparr>Scheme = scheme, Opaque = [], User = None, Host = host, Path = path, RawPath = path,
      OmitHost = False, ForceQuery = False, RawQuery = [], Fragment = [], RawFragment = []\<rparr>"

definition tftp_template :: URL where
  "tftp_template = parsed ''tftp'' ''10.0.0.1'' ''/pxe/{arch}''"

definition http_template :: URL where
  "http_template = parsed ''http'' ''boot.example'' ''/{arch}.ipxe''"

definition grub_template :: URL where
  "grub_template = parsed ''tftp'' ''10.0.0.1'' ''/boot/{arch}/{efi}''"

definition example_Parse :: "string \<Rightarrow> string + URL" where
  "example_Parse s =
     (if s = ''tftp://10.0.0.1/pxe/{arch}'' then Inr tftp_template
      else if s = ''http://boot.example/{arch}.ipxe'' then Inr http_template
      else if s = ''tftp://10.0.0.1/boot/{arch}/{efi}'' then Inr grub_template
      else Inl ''not one of the examples'')"

section \<open>Admission control: the allow-set in the states setup can produce\<close>

lemma map_len_0: "map_len m = 0 \<longleftrightarrow> m = []"
  by (simp add: map_len_def)

lemma keys_map_assign: "keys (map_assign m k v) = insert k (keys m)"
  by (induction m k v rule: map_assign.induct) (auto simp: keys_def)

lemma all_true_map_assign: "all_true m \<Longrightarrow> all_true (map_assign m k True)"
  by (induction m k True rule: map_assign.induct) (auto simp: all_true_def)

lemma map_index_all_true: "all_true m \<Longrightarrow> map_index m k \<longleftrightarrow> k \<in> keys m"
  by (induction m) (auto simp: all_true_def map_index_def keys_def split: option.splits)

lemma keys_add_args: "keys (add_args strings args m) = keys m \<union> (normalize strings ` set args - {[]})"
  by (induction args arbitrary: m) (auto simp: keys_map_assign normalize_def Let_def)

lemma all_true_add_args: "all_true m \<Longrightarrow> all_true (add_args strings args m)"
  by (induction args arbitrary: m) (auto simp: all_true_map_assign Let_def)

lemma all_true_Nil: "all_true []"
  by (simp add: all_true_def)

lemma reachable_all_true:
  "reachable strings g \<Longrightarrow> whitelistedMACs g = Some m \<Longrightarrow> all_true m"
proof (induction arbitrary: m rule: reachable.induct)
  case start
  then show ?case by (simp add: whitelist_init_def)
next
  case (after_setup6 g args)
  then show ?case
    using all_true_add_args [OF all_true_Nil] by (auto simp: whitelist_setup6_def)
next
  case (after_setup4 g args)
  then show ?case
    using all_true_add_args [OF all_true_Nil]
    by (auto simp: whitelist_setup4_def split: if_splits)
qed

lemma allowSet_nonempty:
  "allowSet g \<noteq> {} \<longleftrightarrow> (\<exists>m. whitelistedMACs g = Some m \<and> map_len m \<noteq> 0)"
  by (auto simp: allowSet_def keys_def map_len_0 split: option.splits)

lemma allowSet_setup6: "allowSet (whitelist_setup6 strings args g) = normalize strings ` set args - {[]}"
  by (simp add: allowSet_def whitelist_setup6_def keys_add_args) (simp add: keys_def)

lemma allowSet_setup4:
  "allowSet (whitelist_setup4 strings args g) =
     (if whitelistedMACs g = None then normalize strings ` set args - {[]} else allowSet g)"
  by (simp add: allowSet_def whitelist_setup4_def keys_add_args) (simp add: keys_def)

lemma ascii_space_lower: "ascii_space (ascii_lower c) = ascii_space c"
  by (simp add: ascii_lower_def ascii_space_def upperhalf_def lowerhalf_def)

lemma ascii_ToLower_TrimSpace:
  "ToLower ascii_strings (TrimSpace ascii_strings s)
     = TrimSpace ascii_strings (ToLower ascii_strings s)"
proof -
  have "dropWhile ascii_space (map ascii_lower xs) = map ascii_lower (dropWhile ascii_space xs)"
    for xs
    by (simp add: dropWhile_map comp_def ascii_space_lower)
  then show ?thesis
    by (simp add: ascii_strings_def ascii_ToLower_def ascii_TrimSpace_def rev_map)
qed

lemma normalize_case:
  assumes "\<forall>s. ToLower strings (TrimSpace strings s) = TrimSpace strings (ToLower strings s)"
    and "ToLower strings a = ToLower strings b"
  shows "normalize strings a = normalize strings b"
  using assms by (simp add: normalize_def)

lemma map_normalize_case:
  assumes "\<forall>s. ToLower strings (TrimSpace strings s) = TrimSpace strings (ToLower strings s)"
  shows "map (ToLower strings) args = map (ToLower strings) args2 \<Longrightarrow>
     map (normalize strings) args = map (normalize strings) args2"
proof (induction args arbitrary: args2)
  case Nil
  then show ?case by simp
next
  case (Cons a args)
  then obtain b bs where b: "args2 = b # bs" "ToLower strings a = ToLower strings b"
    "map (ToLower strings) args = map (ToLower strings) bs"
    by (cases args2) auto
  show ?case
    using Cons.IH [OF b(3)] normalize_case [OF assms b(2)] by (simp add: b(1))
qed

lemma add_args_same:
  "map (normalize strings) args = map (normalize strings) args2 \<Longrightarrow>
     add_args strings args m = add_args strings args2 m"
proof (induction args arbitrary: args2 m)
  case Nil
  then show ?case by simp
next
  case (Cons a args)
  then obtain b bs where b: "args2 = b # bs" "normalize strings a = normalize strings b"
    "map (normalize strings) args = map (normalize strings) bs"
    by (cases args2) auto
  have n: "ToLower strings (TrimSpace strings a) = ToLower strings (TrimSpace strings b)"
    using b(2) by (simp add: normalize_def)
  show ?case
    using Cons.IH [OF b(3)] by (simp add: b(1) n Let_def)
qed

lemma Handler4_decision:
  assumes "reachable strings g" and "allowSet g \<noteq> {}"
  shows "Handler4 strings g req resp =
     (if ToLower strings (HardwareAddr_String (ClientHWAddr req)) \<in> allowSet g
      then (resp, False) else (None, True))"
proof -
  from assms(2) obtain m where m: "whitelistedMACs g = Some m" "map_len m \<noteq> 0"
    by (auto simp: allowSet_nonempty)
  have "all_true m"
    using reachable_all_true [OF assms(1) m(1)] .
  then show ?thesis
    using m by (simp add: Handler4_def allowSet_def map_index_all_true Let_def)
qed

lemma Handler6_decision:
  assumes "reachable strings g" and "allowSet g \<noteq> {}"
  shows "Handler6 strings g req resp =
     (case ExtractMAC req of
        Inl err \<Rightarrow> (None, True)
      | Inr mac \<Rightarrow>
          if ToLower strings (HardwareAddr_String mac) \<in> allowSet g
          then (resp, False) else (None, True))"
proof -
  from assms(2) obtain m where m: "whitelistedMACs g = Some m" "map_len m \<noteq> 0"
    by (auto simp: allowSet_nonempty)
  have "all_true m"
    using reachable_all_true [OF assms(1) m(1)] .
  then show ?thesis
    using m by (simp add: Handler6_def allowSet_def map_index_all_true Let_def split: sum.splits)
qed

lemma scenario_allowSet:
  "allowSet scenario_globals = {''00:11:22:33:44:55'', ''aa:bb:cc:dd:ee:ff''}"
  by (simp add: scenario_globals_def allowSet_setup6 normalize_def ascii_strings_def
      ascii_ToLower_def ascii_lower_def upperhalf_def lowerhalf_def ascii_TrimSpace_def
      ascii_space_def)

lemma scenario_reachable: "reachable ascii_strings scenario_globals"
  unfolding scenario_globals_def by (intro reachable.intros)

section \<open>Admission control: the theorems\<close>

text \<open>
  C1. Whatever the library's ToLower and TrimSpace compute: in every state that setup can
  produce and whose allow-set L is not empty, Handler4
  returns (reply, stop = false) if the lower-cased text of the request's hardware address
  is in L and (nil, stop = true) otherwise; Handler6 does the same with the address it
  extracts from the packet. L holds the trimmed, lower-cased, non-empty setup arguments.
  Two requests whose address texts have the same lower-case form get the same decision.
  Two argument lists whose entries have the same trimmed lower-case forms configure the
  same allow-set; so do two lists whose entries have the same lower-case forms, when
  lower-casing and trimming commute, as they do on ASCII text.
\<close>

theorem C1_admission_decision:
  assumes "reachable strings g" and "allowSet g \<noteq> {}"
  shows "Handler4 strings g req_four reply_four =
           (if ToLower strings (HardwareAddr_String (ClientHWAddr req_four)) \<in> allowSet g
            then (reply_four, False) else (None, True))
       \<and> Handler6 strings g req_six reply_six =
           (case ExtractMAC req_six of
              Inl err \<Rightarrow> (None, True)
            | Inr mac \<Rightarrow>
                if ToLower strings (HardwareAddr_String mac) \<in> allowSet g
                then (reply_six, False) else (None, True))
       \<and> allowSet (whitelist_setup6 strings args g_before) = normalize strings ` set args - {[]}
       \<and> allowSet (whitelist_setup4 strings args whitelist_init) = normalize strings ` set args - {[]}
       \<and> (ToLower strings (HardwareAddr_String (ClientHWAddr req_four)) =
            ToLower strings (HardwareAddr_String (ClientHWAddr req_other))
          \<longrightarrow> Handler4 strings g req_four reply_four = Handler4 strings g req_other reply_four)
       \<and> (ExtractMAC req_six = Inr mac \<and> ExtractMAC req_another = Inr mac_other
            \<and> ToLower strings (HardwareAddr_String mac) =
                ToLower strings (HardwareAddr_String mac_other)
          \<longrightarrow> Handler6 strings g req_six reply_six = Handler6 strings g req_another reply_six)
       \<and> (map (normalize strings) args = map (normalize strings) args_other
          \<longrightarrow> whitelist_setup6 strings args g_before = whitelist_setup6 strings args_other g_before)
       \<and> ((\<forall>s. ToLower strings (TrimSpace strings s) = TrimSpace strings (ToLower strings s))
            \<and> map (ToLower strings) args = map (ToLower strings) args_other
          \<longrightarrow> whitelist_setup6 strings args g_before = whitelist_setup6 strings args_other g_before)"
proof (intro conjI impI)
  show "Handler4 strings g req_four reply_four =
          (if ToLower strings (HardwareAddr_String (ClientHWAddr req_four)) \<in> allowSet g
           then (reply_four, False) else (None, True))"
    by (rule Handler4_decision [OF assms])
  show "Handler6 strings g req_six reply_six =
          (case ExtractMAC req_six of
             Inl err \<Rightarrow> (None, True)
           | Inr mac \<Rightarrow>
               if ToLower strings (HardwareAddr_String mac) \<in> allowSet g
               then (reply_six, False) else (None, True))"
    by (rule Handler6_decision [OF assms])
  show "allowSet (whitelist_setup6 strings args g_before) = normalize strings ` set args - {[]}"
    by (rule allowSet_setup6)
  show "allowSet (whitelist_setup4 strings args whitelist_init) = normalize strings ` set args - {[]}"
    by (simp add: allowSet_setup4 whitelist_init_def)
  show "Handler4 strings g req_four reply_four = Handler4 strings g req_other reply_four"
    if "ToLower strings (HardwareAddr_String (ClientHWAddr req_four)) =
        ToLower strings (HardwareAddr_String (ClientHWAddr req_other))"
    using that by (simp add: Handler4_decision [OF assms])
  show "Handler6 strings g req_six reply_six = Handler6 strings g req_another reply_six"
    if "ExtractMAC req_six = Inr mac \<and> ExtractMAC req_another = Inr mac_other
        \<and> ToLower strings (HardwareAddr_String mac) =
            ToLower strings (HardwareAddr_String mac_other)"
    using that by (simp add: Handler6_decision [OF assms])
  show "whitelist_setup6 strings args g_before = whitelist_setup6 strings args_other g_before"
    if "map (normalize strings) args = map (normalize strings) args_other"
    using add_args_same [OF that] by (simp add: whitelist_setup6_def)
  show "whitelist_setup6 strings args g_before = whitelist_setup6 strings args_other g_before"
    if "(\<forall>s. ToLower strings (TrimSpace strings s) = TrimSpace strings (ToLower strings s))
        \<and> map (ToLower strings) args = map (ToLower strings) args_other"
  proof -
    from that have comm:
      "\<forall>s. ToLower strings (TrimSpace strings s) = TrimSpace strings (ToLower strings s)"
      and lower: "map (ToLower strings) args = map (ToLower strings) args_other"
      by simp_all
    have "map (normalize strings) args = map (normalize strings) args_other"
      using map_normalize_case [OF comm lower] .
    then have "add_args strings args [] = add_args strings args_other []"
      by (rule add_args_same)
    then show ?thesis
      by (simp add: whitelist_setup6_def)
  qed
qed

text \<open>
  The end-to-end scenario: the allow-list is configured as 00:11:22:33:44:55 (with white
  space around it) and AA:BB:CC:DD:EE:FF (in upper case); the request from the first
  address is let through with its reply, the request from 00:00:00:00:00:00 is dropped.
\<close>

theorem C1_admission_decision_witness:
  "Handler4 ascii_strings scenario_globals (request4_from [0x00, 0x11, 0x22, 0x33, 0x44, 0x55])
       (Some empty_reply4)
     = (Some empty_reply4, False)
   \<and> Handler4 ascii_strings scenario_globals (request4_from [0x00, 0x00, 0x00, 0x00, 0x00, 0x00])
       (Some empty_reply4)
     = (None, True)
   \<and> Handler6 ascii_strings scenario_globals (request6_from (Inr [0xAA, 0xBB, 0xCC, 0xDD, 0xEE, 0xFF]))
       (Some empty_reply6)
     = (Some empty_reply6, False)
   \<and> Handler6 ascii_strings scenario_globals (request6_from (Inr [0xAA, 0xBB, 0xCC, 0xDD, 0xEE, 0xFE]))
       (Some empty_reply6)
     = (None, True)
   \<and> Handler4 ascii_strings scenario_globals (request4_from [0x00, 0x11, 0x22, 0x33, 0x44, 0x55]) None
     = Handler4 ascii_strings scenario_globals (pxe_request [7] [66, 67]) None
   \<and> Handler6 ascii_strings scenario_globals (request6_from (Inr [0xAA, 0xBB, 0xCC, 0xDD, 0xEE, 0xFF])) None
     = Handler6 ascii_strings scenario_globals (request6_asking [59]) None
   \<and> whitelist_setup6 ascii_strings [''aa:bb:cc:dd:ee:ff''] whitelist_init
     = whitelist_setup6 ascii_strings [''AA:bb:CC:dd:EE:ff''] whitelist_init
   \<and> whitelist_setup6 ascii_strings [''  aa:bb:cc:dd:ee:ff''] whitelist_init
     = whitelist_setup6 ascii_strings [''AA:BB:CC:DD:EE:FF ''] whitelist_init"
proof -
  have ne: "allowSet scenario_globals \<noteq> {}"
    by (simp add: scenario_allowSet)
  have lower:
    "ToLower ascii_strings (HardwareAddr_String [0x00, 0x11, 0x22, 0x33, 0x44, 0x55])
       = ''00:11:22:33:44:55''"
    "ToLower ascii_strings (HardwareAddr_String [0x00, 0x00, 0x00, 0x00, 0x00, 0x00])
       = ''00:00:00:00:00:00''"
    "ToLower ascii_strings (HardwareAddr_String [0xAA, 0xBB, 0xCC, 0xDD, 0xEE, 0xFF])
       = ''aa:bb:cc:dd:ee:ff''"
    "ToLower ascii_strings (HardwareAddr_String [0xAA, 0xBB, 0xCC, 0xDD, 0xEE, 0xFE])
       = ''aa:bb:cc:dd:ee:fe''"
    by (simp_all add: hexByte_def hexDigit_def ascii_strings_def ascii_ToLower_def
        ascii_lower_def upperhalf_def lowerhalf_def)
  note inst = C1_admission_decision [OF scenario_reachable ne,
      where args = "[''aa:bb:cc:dd:ee:ff'']" and g_before = whitelist_init
        and args_other = "[''AA:bb:CC:dd:EE:ff'']" and mac = "[0xAA, 0xBB, 0xCC, 0xDD, 0xEE, 0xFF]"
        and mac_other = "[0xAA, 0xBB, 0xCC, 0xDD, 0xEE, 0xFF]"]
  have a: "Handler4 ascii_strings scenario_globals (request4_from [0x00, 0x11, 0x22, 0x33, 0x44, 0x55])
             (Some empty_reply4) = (Some empty_reply4, False)"
    using inst [where req_four = "request4_from [0x00, 0x11, 0x22, 0x33, 0x44, 0x55]"
        and reply_four = "Some empty_reply4" and req_six = "request6_from (Inr [])" and reply_six = None
        and req_other = "request4_from []" and req_another = "request6_from (Inr [])", THEN conjunct1]
    by (simp add: request4_from_def lower scenario_allowSet del: HardwareAddr_String.simps)
  have b: "Handler4 ascii_strings scenario_globals (request4_from [0x00, 0x00, 0x00, 0x00, 0x00, 0x00])
             (Some empty_reply4) = (None, True)"
    using inst [where req_four = "request4_from [0x00, 0x00, 0x00, 0x00, 0x00, 0x00]"
        and reply_four = "Some empty_reply4" and req_six = "request6_from (Inr [])" and reply_six = None
        and req_other = "request4_from []" and req_another = "request6_from (Inr [])", THEN conjunct1]
    by (simp add: request4_from_def lower scenario_allowSet del: HardwareAddr_String.simps)
  have c: "Handler6 ascii_strings scenario_globals (request6_from (Inr [0xAA, 0xBB, 0xCC, 0xDD, 0xEE, 0xFF]))
             (Some empty_reply6) = (Some empty_reply6, False)"
    using inst [where req_four = "request4_from []" and reply_four = None
        and req_six = "request6_from (Inr [0xAA, 0xBB, 0xCC, 0xDD, 0xEE, 0xFF])"
        and reply_six = "Some empty_reply6" and req_other = "request4_from []" and req_another = "request6_from (Inr [])",
        THEN conjunct2, THEN conjunct1]
    by (simp add: request6_from_def lower scenario_allowSet del: HardwareAddr_String.simps)
  have d: "Handler6 ascii_strings scenario_globals (request6_from (Inr [0xAA, 0xBB, 0xCC, 0xDD, 0xEE, 0xFE]))
             (Some empty_reply6) = (None, True)"
    using inst [where req_four = "request4_from []" and reply_four = None
        and req_six = "request6_from (Inr [0xAA, 0xBB, 0xCC, 0xDD, 0xEE, 0xFE])"
        and reply_six = "Some empty_reply6" and req_other = "request4_from []" and req_another = "request6_from (Inr [])",
        THEN conjunct2, THEN conjunct1]
    by (simp add: request6_from_def lower scenario_allowSet del: HardwareAddr_String.simps)
  have same_text:
    "ToLower ascii_strings (HardwareAddr_String
        (ClientHWAddr (request4_from [0x00, 0x11, 0x22, 0x33, 0x44, 0x55])))
      = ToLower ascii_strings (HardwareAddr_String (ClientHWAddr (pxe_request [7] [66, 67])))"
    by (simp add: request4_from_def pxe_request_def)
  have e: "Handler4 ascii_strings scenario_globals (request4_from [0x00, 0x11, 0x22, 0x33, 0x44, 0x55]) None
     = Handler4 ascii_strings scenario_globals (pxe_request [7] [66, 67]) None"
    using inst [where req_four = "request4_from [0x00, 0x11, 0x22, 0x33, 0x44, 0x55]"
        and reply_four = None and req_six = "request6_from (Inr [])" and reply_six = None
        and req_other = "pxe_request [7] [66, 67]" and req_another = "request6_from (Inr [])",
        THEN conjunct2, THEN conjunct2, THEN conjunct2, THEN conjunct2, THEN conjunct1,
        THEN mp, OF same_text] .
  have same_mac:
    "ExtractMAC (request6_from (Inr [0xAA, 0xBB, 0xCC, 0xDD, 0xEE, 0xFF]))
        = Inr [0xAA, 0xBB, 0xCC, 0xDD, 0xEE, 0xFF]
      \<and> ExtractMAC (request6_asking [59]) = Inr [0xAA, 0xBB, 0xCC, 0xDD, 0xEE, 0xFF]
      \<and> ToLower ascii_strings (HardwareAddr_String [0xAA, 0xBB, 0xCC, 0xDD, 0xEE, 0xFF])
        = ToLower ascii_strings (HardwareAddr_String [0xAA, 0xBB, 0xCC, 0xDD, 0xEE, 0xFF])"
    by (simp add: request6_from_def request6_asking_def)
  have f: "Handler6 ascii_strings scenario_globals (request6_from (Inr [0xAA, 0xBB, 0xCC, 0xDD, 0xEE, 0xFF])) None
     = Handler6 ascii_strings scenario_globals (request6_asking [59]) None"
    using inst [where req_four = "request4_from []" and reply_four = None
        and req_six = "request6_from (Inr [0xAA, 0xBB, 0xCC, 0xDD, 0xEE, 0xFF])"
        and reply_six = None and req_other = "request4_from []"
        and req_another = "request6_asking [59]",
        THEN conjunct2, THEN conjunct2, THEN conjunct2, THEN conjunct2, THEN conjunct2,
        THEN conjunct1, THEN mp, OF same_mac] .
  have same_args:
    "(\<forall>s. ToLower ascii_strings (TrimSpace ascii_strings s)
          = TrimSpace ascii_strings (ToLower ascii_strings s))
     \<and> map (ToLower ascii_strings) [''aa:bb:cc:dd:ee:ff'']
       = map (ToLower ascii_strings) [''AA:bb:CC:dd:EE:ff'']"
    using ascii_ToLower_TrimSpace
    by (simp add: ascii_strings_def ascii_ToLower_def ascii_lower_def upperhalf_def
        lowerhalf_def)
  have g: "whitelist_setup6 ascii_strings [''aa:bb:cc:dd:ee:ff''] whitelist_init
     = whitelist_setup6 ascii_strings [''AA:bb:CC:dd:EE:ff''] whitelist_init"
    using inst [where req_four = "request4_from []" and reply_four = None
        and req_six = "request6_from (Inr [])" and reply_six = None
        and req_other = "request4_from []" and req_another = "request6_from (Inr [])",
        THEN conjunct2, THEN conjunct2, THEN conjunct2, THEN conjunct2, THEN conjunct2,
        THEN conjunct2, THEN conjunct2, THEN mp, OF same_args] .
  have same_norm: "map (normalize ascii_strings) [''  aa:bb:cc:dd:ee:ff'']
      = map (normalize ascii_strings) [''AA:BB:CC:DD:EE:FF '']"
    by (simp add: normalize_def ascii_strings_def ascii_ToLower_def ascii_lower_def
        upperhalf_def lowerhalf_def ascii_TrimSpace_def ascii_space_def)
  have h: "whitelist_setup6 ascii_strings [''  aa:bb:cc:dd:ee:ff''] whitelist_init
     = whitelist_setup6 ascii_strings [''AA:BB:CC:DD:EE:FF ''] whitelist_init"
    using C1_admission_decision [OF scenario_reachable ne,
        where args = "[''  aa:bb:cc:dd:ee:ff'']" and g_before = whitelist_init
        and args_other = "[''AA:BB:CC:DD:EE:FF '']" and mac = "[]" and mac_other = "[]"
        and req_four = "request4_from []" and reply_four = None
        and req_six = "request6_from (Inr [])" and reply_six = None
        and req_other = "request4_from []" and req_another = "request6_from (Inr [])",
        THEN conjunct2, THEN conjunct2, THEN conjunct2, THEN conjunct2, THEN conjunct2,
        THEN conjunct2, THEN conjunct1, THEN mp, OF same_norm] .
  show ?thesis
    using a b c d e f g h by (intro conjI)
qed

text \<open>
  C2. If the allow-set is nil (never configured) or empty, both handlers return the reply
  they were given, unchanged, with stop = false, whatever the request is.
\<close>

theorem C2_fail_open:
  assumes "whitelistedMACs g = None \<or> (\<exists>m. whitelistedMACs g = Some m \<and> map_len m = 0)"
  shows "Handler4 strings g req_four reply_four = (reply_four, False) \<and> Handler6 strings g req_six reply_six = (reply_six, False)"
  using assms by (auto simp: Handler4_def Handler6_def)

theorem C2_fail_open_witness:
  "Handler4 ascii_strings whitelist_init (request4_from [0x00, 0x11, 0x22, 0x33, 0x44, 0x55])
       (Some empty_reply4)
     = (Some empty_reply4, False)
   \<and> Handler6 ascii_strings whitelist_init (request6_from (Inl ''client ID not found in packet''))
       (Some empty_reply6)
     = (Some empty_reply6, False)
   \<and> Handler4 ascii_strings (whitelist_setup4 ascii_strings [''  '', []] whitelist_init)
        (request4_from [0x00, 0x11, 0x22, 0x33, 0x44, 0x55]) None
     = (None, False)
   \<and> Handler6 ascii_strings (whitelist_setup4 ascii_strings [''  '', []] whitelist_init)
        (request6_from (Inr [0x00, 0x11, 0x22, 0x33, 0x44, 0x55])) (Some empty_reply6)
     = (Some empty_reply6, False)"
proof -
  have nil: "whitelistedMACs whitelist_init = None
      \<or> (\<exists>m. whitelistedMACs whitelist_init = Some m \<and> map_len m = 0)"
    by (simp add: whitelist_init_def)
  have empty: "whitelistedMACs (whitelist_setup4 ascii_strings [''  '', []] whitelist_init) = None
      \<or> (\<exists>m. whitelistedMACs (whitelist_setup4 ascii_strings [''  '', []] whitelist_init) = Some m
             \<and> map_len m = 0)"
    by (simp add: whitelist_setup4_def whitelist_init_def ascii_strings_def ascii_ToLower_def
        ascii_TrimSpace_def ascii_space_def map_len_def)
  show ?thesis
    using C2_fail_open [OF nil, where strings = ascii_strings]
      C2_fail_open [OF empty, where strings = ascii_strings] by simp
qed

text \<open>
  C4. With a non-empty allow-set, a DHCPv6 request from which no hardware address can be
  extracted is rejected: Handler6 returns (nil, stop = true).
\<close>

theorem C4_extraction_failure_rejects:
  assumes "allowSet g \<noteq> {}" and "ExtractMAC req_six = Inl err"
  shows "Handler6 strings g req_six reply_six = (None, True)"
proof -
  from assms(1) obtain m where "whitelistedMACs g = Some m" "map_len m \<noteq> 0"
    by (auto simp: allowSet_nonempty)
  then show ?thesis
    using assms(2) by (simp add: Handler6_def)
qed

theorem C4_extraction_failure_rejects_witness:
  "Handler6 ascii_strings scenario_globals (request6_from (Inl ''client ID not found in packet''))
       (Some empty_reply6)
     = (None, True)"
proof -
  have ne: "allowSet scenario_globals \<noteq> {}"
    by (simp add: scenario_allowSet)
  have ex: "ExtractMAC (request6_from (Inl ''client ID not found in packet''))
              = Inl ''client ID not found in packet''"
    by (simp add: request6_from_def)
  show ?thesis
    using C4_extraction_failure_rejects [OF ne ex] .
qed

section \<open>Properties of ReplaceAll\<close>

lemma ReplaceAll_Nil: "old \<noteq> [] \<Longrightarrow> strings_ReplaceAll [] old new = []"
  by (simp add: strings_ReplaceAll.simps)

lemma ReplaceAll_match:
  "old \<noteq> [] \<Longrightarrow> strings_ReplaceAll (old @ b) old new = new @ strings_ReplaceAll b old new"
  by (subst strings_ReplaceAll.simps) (simp add: HasPrefix_def)

lemma ReplaceAll_step:
  "old \<noteq> [] \<Longrightarrow> \<not> HasPrefix (x # q) old \<Longrightarrow>
     strings_ReplaceAll (x # q) old new = x # strings_ReplaceAll q old new"
  by (subst strings_ReplaceAll.simps) simp

lemma HasPrefix_append:
  assumes "x \<notin> set (tl old)" and "old \<noteq> []" and "p \<noteq> []"
  shows "HasPrefix (p @ x # q) old \<longleftrightarrow> HasPrefix p old"
proof
  assume h: "HasPrefix (p @ x # q) old"
  show "HasPrefix p old"
  proof (cases "length old \<le> length p")
    case True
    with h show ?thesis by (simp add: HasPrefix_def)
  next
    case False
    then have lt: "length p < length old" by simp
    from h have "old ! length p = (p @ x # q) ! length p"
      unfolding HasPrefix_def using lt by (metis nth_take)
    then have "old ! length p = x" by simp
    moreover have "0 < length p" using assms(3) by simp
    ultimately have "x \<in> set (tl old)"
      using lt assms(2) by (metis Suc_pred in_set_conv_nth length_tl less_diff_conv nth_tl Suc_eq_plus1)
    with assms(1) show ?thesis by simp
  qed
next
  assume "HasPrefix p old"
  then show "HasPrefix (p @ x # q) old"
    by (metis HasPrefix_def append_eq_conv_conj append_assoc append_take_drop_id)
qed

lemma ReplaceAll_split:
  "old \<noteq> [] \<Longrightarrow> x \<notin> set (tl old) \<Longrightarrow>
     strings_ReplaceAll (p @ x # q) old new =
     strings_ReplaceAll p old new @ strings_ReplaceAll (x # q) old new"
proof (induction p old new rule: strings_ReplaceAll.induct)
  case (1 s old new)
  note ne_old = "1.prems"(1) and notin = "1.prems"(2)
  show ?case
  proof (cases "s = []")
    case True
    then show ?thesis using ne_old by (simp add: ReplaceAll_Nil)
  next
    case ne: False
    show ?thesis
    proof (cases "HasPrefix s old")
      case True
      then have len: "length old \<le> length s"
        by (metis HasPrefix_def length_take min.cobounded2 min_def nat_le_linear)
      have hp: "HasPrefix (s @ x # q) old"
        using True HasPrefix_append [OF notin ne_old ne] by blast
      have a: "strings_ReplaceAll (s @ x # q) old new =
              new @ strings_ReplaceAll (drop (length old) s @ x # q) old new"
        using hp ne_old ne len by (subst strings_ReplaceAll.simps) simp
      have b: "strings_ReplaceAll (drop (length old) s @ x # q) old new =
              strings_ReplaceAll (drop (length old) s) old new @ strings_ReplaceAll (x # q) old new"
        using "1.IH"(1) [OF ne_old ne True ne_old notin] .
      have c: "strings_ReplaceAll s old new = new @ strings_ReplaceAll (drop (length old) s) old new"
        using True ne_old ne by (subst strings_ReplaceAll.simps) simp
      show ?thesis by (simp add: a b c)
    next
      case False
      then have hp: "\<not> HasPrefix (s @ x # q) old"
        using HasPrefix_append [OF notin ne_old ne] by blast
      obtain c cs where s: "s = c # cs" using ne by (cases s) auto
      have a: "strings_ReplaceAll (s @ x # q) old new = c # strings_ReplaceAll (cs @ x # q) old new"
        using hp ne_old unfolding s by (simp add: ReplaceAll_step)
      have b: "strings_ReplaceAll (cs @ x # q) old new =
              strings_ReplaceAll cs old new @ strings_ReplaceAll (x # q) old new"
        using "1.IH"(2) [OF ne_old ne False ne_old notin] by (simp add: s)
      have c: "strings_ReplaceAll s old new = c # strings_ReplaceAll cs old new"
        using False ne_old unfolding s by (simp add: ReplaceAll_step)
      show ?thesis by (simp add: a b c)
    qed
  qed
qed

lemma ReplaceAll_occurrence:
  assumes "old = c # w" and "c \<notin> set w"
  shows "strings_ReplaceAll (a @ old @ b) old new =
     strings_ReplaceAll a old new @ new @ strings_ReplaceAll b old new"
proof -
  have "strings_ReplaceAll (a @ c # (w @ b)) old new =
     strings_ReplaceAll a old new @ strings_ReplaceAll (c # (w @ b)) old new"
    using assms by (intro ReplaceAll_split) auto
  moreover have "strings_ReplaceAll (c # (w @ b)) old new = new @ strings_ReplaceAll b old new"
    using ReplaceAll_match [of old b new] assms by simp
  ultimately show ?thesis using assms by simp
qed

lemma ReplaceAll_skip:
  "old \<noteq> [] \<Longrightarrow> hd old \<notin> set s \<Longrightarrow>
     strings_ReplaceAll (s @ q) old new = s @ strings_ReplaceAll q old new"
proof (induction s)
  case Nil
  then show ?case by simp
next
  case (Cons x s)
  then have "\<not> HasPrefix (x # s @ q) old"
    by (cases old) (auto simp: HasPrefix_def)
  then show ?case using Cons by (simp add: ReplaceAll_step)
qed

lemma ReplaceAll_absent:
  "old \<noteq> [] \<Longrightarrow> \<not> Contains s old \<Longrightarrow> strings_ReplaceAll s old new = s"
  by (induction s) (auto simp: ReplaceAll_Nil ReplaceAll_step)

lemma HasPrefix_Cons: "HasPrefix (x # s) (y # v) \<longleftrightarrow> x = y \<and> HasPrefix s v"
  by (auto simp: HasPrefix_def)

lemma HasPrefix_Nil [simp]: "HasPrefix s []"
  by (simp add: HasPrefix_def)

lemma HasPrefix_Nil_left: "HasPrefix [] v \<longleftrightarrow> v = []"
  by (auto simp: HasPrefix_def)

lemma HasPrefix_append_clash:
  assumes "HasPrefix (new @ R) v"
  shows "take (min (length new) (length v)) new = take (min (length new) (length v)) v"
proof -
  from assms have "take (length v) (new @ R) = v" by (simp add: HasPrefix_def)
  then have "take (min (length new) (length v)) (take (length v) (new @ R))
      = take (min (length new) (length v)) v" by simp
  then show ?thesis by (simp add: min_def split: if_splits)
qed

lemma ReplaceAll_prefix_back:
  "old \<noteq> [] \<Longrightarrow> new \<noteq> [] \<Longrightarrow> clash new v \<Longrightarrow>
     HasPrefix (strings_ReplaceAll s old new) v \<Longrightarrow> HasPrefix s v"
proof (induction v arbitrary: s)
  case Nil
  then show ?case by simp
next
  case (Cons y v)
  show ?case
  proof (cases "s = []")
    case True
    with Cons.prems show ?thesis by (simp add: ReplaceAll_Nil HasPrefix_Nil_left)
  next
    case ne: False
    show ?thesis
    proof (cases "HasPrefix s old")
      case True
      then have "strings_ReplaceAll s old new
          = new @ strings_ReplaceAll (drop (length old) s) old new"
        using Cons.prems(1) ne by (subst strings_ReplaceAll.simps) simp
      with Cons.prems(4) have "take (min (length new) (length (y # v))) new
          = take (min (length new) (length (y # v))) (y # v)"
        using HasPrefix_append_clash by metis
      with Cons.prems(3) show ?thesis by simp
    next
      case False
      obtain x t where s: "s = x # t" using ne by (cases s) auto
      have "strings_ReplaceAll s old new = x # strings_ReplaceAll t old new"
        using False Cons.prems(1) unfolding s by (simp add: ReplaceAll_step)
      with Cons.prems(4) have "x = y" "HasPrefix (strings_ReplaceAll t old new) v"
        by (simp_all add: HasPrefix_Cons)
      moreover have "clash new v" using Cons.prems(3) by simp
      ultimately show ?thesis
        using Cons.IH [OF Cons.prems(1,2)] by (simp add: s HasPrefix_Cons)
    qed
  qed
qed

lemma Contains_append_left:
  "pat \<noteq> [] \<Longrightarrow> hd pat \<notin> set new \<Longrightarrow> Contains (new @ R) pat \<longleftrightarrow> Contains R pat"
  by (induction new) (auto simp: HasPrefix_def neq_Nil_conv)

lemma Contains_drop: "Contains (drop n t) pat \<Longrightarrow> pat \<noteq> [] \<Longrightarrow> Contains t pat"
proof (induction t arbitrary: n)
  case Nil
  then show ?case by simp
next
  case (Cons x t)
  then show ?case by (cases n) auto
qed

lemma ReplaceAll_keeps_absent:
  "old \<noteq> [] \<Longrightarrow> new \<noteq> [] \<Longrightarrow> c \<notin> set new \<Longrightarrow> clash new w \<Longrightarrow>
     Contains (strings_ReplaceAll s old new) (c # w) \<Longrightarrow> Contains s (c # w)"
proof (induction s old new rule: strings_ReplaceAll.induct)
  case (1 s old new)
  note ne_old = "1.prems"(1) and ne_new = "1.prems"(2) and fresh = "1.prems"(3)
    and cl = "1.prems"(4) and found = "1.prems"(5)
  show ?case
  proof (cases "s = []")
    case True
    with found ne_old show ?thesis by (simp add: ReplaceAll_Nil)
  next
    case ne: False
    show ?thesis
    proof (cases "HasPrefix s old")
      case True
      then have "strings_ReplaceAll s old new
          = new @ strings_ReplaceAll (drop (length old) s) old new"
        using ne_old ne by (subst strings_ReplaceAll.simps) simp
      with found fresh
      have "Contains (strings_ReplaceAll (drop (length old) s) old new) (c # w)"
        by (simp add: Contains_append_left)
      then have "Contains (drop (length old) s) (c # w)"
        using "1.IH"(1) [OF ne_old ne True ne_old ne_new fresh cl] by simp
      then show ?thesis by (rule Contains_drop) simp
    next
      case False
      obtain x t where s: "s = x # t" using ne by (cases s) auto
      have eq: "strings_ReplaceAll s old new = x # strings_ReplaceAll t old new"
        using False ne_old unfolding s by (simp add: ReplaceAll_step)
      from found consider "HasPrefix (x # strings_ReplaceAll t old new) (c # w)"
        | "Contains (strings_ReplaceAll t old new) (c # w)"
        unfolding eq by auto
      then show ?thesis
      proof cases
        case 1
        then have "x = c" "HasPrefix (strings_ReplaceAll t old new) w"
          by (simp_all add: HasPrefix_Cons)
        then have "HasPrefix t w"
          using ReplaceAll_prefix_back [OF ne_old ne_new cl] by simp
        with \<open>x = c\<close> show ?thesis by (simp add: s HasPrefix_Cons)
      next
        case 2
        then have "Contains t (c # w)"
          using "1.IH"(2) [OF ne_old ne False ne_old ne_new fresh cl] by (simp add: s)
        then show ?thesis by (simp add: s)
      qed
    qed
  qed
qed

lemma ReplaceAll_leaves_none:
  "old = c # w \<Longrightarrow> new \<noteq> [] \<Longrightarrow> c \<notin> set new \<Longrightarrow> clash new w \<Longrightarrow>
     \<not> Contains (strings_ReplaceAll s old new) old"
proof (induction s old new rule: strings_ReplaceAll.induct)
  case (1 s old new)
  note old = "1.prems"(1) and ne_new = "1.prems"(2) and fresh = "1.prems"(3)
    and cl = "1.prems"(4)
  have ne_old: "old \<noteq> []" using old by simp
  show ?case
  proof (cases "s = []")
    case True
    with ne_old show ?thesis by (simp add: ReplaceAll_Nil)
  next
    case ne: False
    show ?thesis
    proof (cases "HasPrefix s old")
      case True
      then have "strings_ReplaceAll s old new
          = new @ strings_ReplaceAll (drop (length old) s) old new"
        using ne_old ne by (subst strings_ReplaceAll.simps) simp
      moreover have "\<not> Contains (strings_ReplaceAll (drop (length old) s) old new) old"
        using "1.IH"(1) [OF ne_old ne True old ne_new fresh cl] .
      ultimately show ?thesis
        using fresh old by (simp add: Contains_append_left)
    next
      case False
      obtain x t where s: "s = x # t" using ne by (cases s) auto
      have eq: "strings_ReplaceAll s old new = x # strings_ReplaceAll t old new"
        using False ne_old unfolding s by (simp add: ReplaceAll_step)
      have rest: "\<not> Contains (strings_ReplaceAll t old new) old"
        using "1.IH"(2) [OF ne_old ne False old ne_new fresh cl] by (simp add: s)
      have "\<not> HasPrefix (x # strings_ReplaceAll t old new) old"
      proof
        assume "HasPrefix (x # strings_ReplaceAll t old new) old"
        then have "x = c" "HasPrefix (strings_ReplaceAll t old new) w"
          by (simp_all add: old HasPrefix_Cons)
        then have "HasPrefix t w"
          using ReplaceAll_prefix_back [OF ne_old ne_new cl] by simp
        with \<open>x = c\<close> have "HasPrefix s old" by (simp add: s old HasPrefix_Cons)
        with False show False by simp
      qed
      with rest show ?thesis by (simp add: eq)
    qed
  qed
qed

section \<open>The architecture classifier and the placeholders\<close>

lemma getArchString_shortForms: "getArchString archs \<in> set shortForms"
  by (simp add: getArchString_def shortForms_def)

lemma modifiedURL_of_eq:
  "modifiedURL_of u short =
     u\<lparr>Path := strings_ReplaceAll (strings_ReplaceAll (Path u) ''{arch}'' short)
                  ''{efi}'' (bootloader short)\<rparr>"
  by (simp add: modifiedURL_of_def bootloader_def Let_def)

lemma resolvedPath_eq:
  "resolvedPath p short =
     strings_ReplaceAll (strings_ReplaceAll p ''{arch}'' short) ''{efi}'' (bootloader short)"
  by (simp add: resolvedPath_def modifiedURL_of_eq)

lemma modifiedURL_of_Path: "Path (modifiedURL_of u short) = resolvedPath (Path u) short"
  by (simp add: resolvedPath_eq modifiedURL_of_eq)

lemma ReplaceAll_through:
  assumes "old \<noteq> []" and "s \<noteq> []" and "hd s \<notin> set old" and "hd old \<notin> set s"
  shows "strings_ReplaceAll (p @ s @ q) old new =
     strings_ReplaceAll p old new @ s @ strings_ReplaceAll q old new"
proof -
  obtain x t where s: "s = x # t"
    using assms(2) by (cases s) auto
  have "x \<notin> set (tl old)"
    using assms(1,3) s by (cases old) auto
  then have "strings_ReplaceAll (p @ x # (t @ q)) old new =
      strings_ReplaceAll p old new @ strings_ReplaceAll (x # (t @ q)) old new"
    using assms(1) by (intro ReplaceAll_split)
  moreover have "strings_ReplaceAll (s @ q) old new = s @ strings_ReplaceAll q old new"
    using assms(1,4) by (intro ReplaceAll_skip)
  ultimately show ?thesis
    by (simp add: s)
qed

lemma arch_occurrence:
  assumes "short \<in> set shortForms"
  shows "resolvedPath (a @ ''{arch}'' @ b) short =
     resolvedPath a short @ short @ resolvedPath b short"
proof -
  have first: "strings_ReplaceAll (a @ ''{arch}'' @ b) ''{arch}'' short =
      strings_ReplaceAll a ''{arch}'' short @ short @ strings_ReplaceAll b ''{arch}'' short"
    by (rule ReplaceAll_occurrence [where c = "CHR ''{''" and w = "''arch}''"]) simp_all
  have side: "short \<noteq> []" "hd short \<notin> set ''{efi}''" "hd ''{efi}'' \<notin> set short"
    using assms by (auto simp: shortForms_def)
  have "strings_ReplaceAll (p @ short @ q) ''{efi}'' new =
      strings_ReplaceAll p ''{efi}'' new @ short @ strings_ReplaceAll q ''{efi}'' new" for p q new
    using side by (intro ReplaceAll_through) simp_all
  then show ?thesis
    by (simp only: resolvedPath_eq first)
qed

lemma efi_occurrence:
  "resolvedPath (a @ ''{efi}'' @ b) short =
     resolvedPath a short @ bootloader short @ resolvedPath b short"
proof -
  have "strings_ReplaceAll (''efi}'' @ b) ''{arch}'' short
      = ''efi}'' @ strings_ReplaceAll b ''{arch}'' short"
    by (rule ReplaceAll_skip) simp_all
  then have "strings_ReplaceAll (CHR ''{'' # ''efi}'' @ b) ''{arch}'' short
      = ''{efi}'' @ strings_ReplaceAll b ''{arch}'' short"
    by (simp add: ReplaceAll_step HasPrefix_def)
  moreover have "strings_ReplaceAll (a @ CHR ''{'' # (''efi}'' @ b)) ''{arch}'' short =
      strings_ReplaceAll a ''{arch}'' short
        @ strings_ReplaceAll (CHR ''{'' # (''efi}'' @ b)) ''{arch}'' short"
    by (rule ReplaceAll_split) simp_all
  ultimately have first: "strings_ReplaceAll (a @ ''{efi}'' @ b) ''{arch}'' short =
      strings_ReplaceAll a ''{arch}'' short @ ''{efi}'' @ strings_ReplaceAll b ''{arch}'' short"
    by simp
  have "strings_ReplaceAll (p @ ''{efi}'' @ q) ''{efi}'' new =
      strings_ReplaceAll p ''{efi}'' new @ new @ strings_ReplaceAll q ''{efi}'' new" for p q new
    by (rule ReplaceAll_occurrence [where c = "CHR ''{''" and w = "''efi}''"]) simp_all
  then show ?thesis
    by (simp only: resolvedPath_eq first)
qed

lemma no_occurrence:
  "\<not> Contains p ''{arch}'' \<Longrightarrow> \<not> Contains p ''{efi}'' \<Longrightarrow> resolvedPath p short = p"
  by (simp add: resolvedPath_eq ReplaceAll_absent)

lemma none_remain:
  assumes "short \<in> set shortForms"
  shows "\<not> Contains (resolvedPath p short) ''{arch}'' \<and> \<not> Contains (resolvedPath p short) ''{efi}''"
proof
  have short: "short \<noteq> []" "CHR ''{'' \<notin> set short" "clash short ''arch}''"
    using assms by (auto simp: shortForms_def)
  have loader: "bootloader short \<noteq> []" "CHR ''{'' \<notin> set (bootloader short)"
    "clash (bootloader short) ''arch}''" "clash (bootloader short) ''efi}''"
    by (simp_all add: bootloader_def)
  have "\<not> Contains (strings_ReplaceAll p ''{arch}'' short) ''{arch}''"
    by (rule ReplaceAll_leaves_none [OF _ short]) simp
  then show "\<not> Contains (resolvedPath p short) ''{arch}''"
    unfolding resolvedPath_eq
    using ReplaceAll_keeps_absent [OF _ loader(1,2,3), of "''{efi}''"] by blast
  show "\<not> Contains (resolvedPath p short) ''{efi}''"
    unfolding resolvedPath_eq
    by (rule ReplaceAll_leaves_none [OF _ loader(1,2,4)]) simp
qed

lemma example_path:
  "resolvedPath ''/boot/{arch}/{efi}'' (getArchString [EFI_X86_64]) = ''/boot/x86/grubx64.efi''"
  by (simp add: resolvedPath_eq getArchString_def bootloader_def strings_ReplaceAll.simps
      HasPrefix_def)

section \<open>Boot resolution: the theorems\<close>

text \<open>
  C8. The classifier returns a short form for every list of architecture codes: the empty
  list gives default; otherwise the first code alone decides, the codes after it do not
  matter: EFI x86-64 gives x86, EFI ARM64 gives arm64, Intel x86 PC gives x86legacy, every
  other code gives unknown. The result is always one of the five short forms.
\<close>

theorem C8_classifier_total:
  "getArchString [] = ''default''
   \<and> getArchString (EFI_X86_64 # rest) = ''x86''
   \<and> getArchString (EFI_ARM64 # rest) = ''arm64''
   \<and> getArchString (INTEL_X86PC # rest) = ''x86legacy''
   \<and> (code \<notin> {EFI_X86_64, EFI_ARM64, INTEL_X86PC} \<longrightarrow> getArchString (code # rest) = ''unknown'')
   \<and> getArchString (code # rest) = getArchString [code]
   \<and> getArchString archs \<in> set shortForms"
  by (simp add: getArchString_def shortForms_def EFI_X86_64_def EFI_ARM64_def INTEL_X86PC_def)

theorem C8_classifier_total_witness:
  "getArchString [6, EFI_X86_64] = ''unknown'' \<and> getArchString [EFI_ARM64, 6] = ''arm64''"
proof -
  have other: "(6 :: Arch) \<notin> {EFI_X86_64, EFI_ARM64, INTEL_X86PC}"
    by (simp add: EFI_X86_64_def EFI_ARM64_def INTEL_X86PC_def)
  have "getArchString [6, EFI_X86_64] = ''unknown''"
    using C8_classifier_total [where code = 6 and rest = "[EFI_X86_64]" and archs = "[]",
        THEN conjunct2, THEN conjunct2, THEN conjunct2, THEN conjunct2, THEN conjunct1,
        THEN mp, OF other] .
  moreover have "getArchString [EFI_ARM64, 6] = ''arm64''"
    using C8_classifier_total [where code = 6 and rest = "[6]" and archs = "[]",
        THEN conjunct2, THEN conjunct2, THEN conjunct1] .
  ultimately show ?thesis by simp
qed

text \<open>
  C7. The handler's path is the template path with \<open>{arch}\<close> replaced by the short form
  and then \<open>{efi}\<close> replaced by the bootloader of the table for that short form. For each
  of the five short forms this replaces every occurrence: a path that contains a
  placeholder between two parts resolves to the resolved first part, the replacement, and
  the resolved second part; a path without placeholders stays as it is; and the resolved
  path contains neither placeholder any more. The table is
  x86 to grubx64.efi, arm64 to grubaa64.efi, x86legacy to grub.0, anything else to
  unknown.efi, and \<open>/boot/{arch}/{efi}\<close> resolves for EFI x86-64 to
  \<open>/boot/x86/grubx64.efi\<close>.
\<close>

theorem C7_placeholder_substitution:
  assumes "short \<in> set shortForms"
  shows "Path (modifiedURL_of u short) = resolvedPath (Path u) short
   \<and> resolvedPath p short =
       strings_ReplaceAll (strings_ReplaceAll p ''{arch}'' short) ''{efi}'' (bootloader short)
   \<and> resolvedPath (a @ ''{arch}'' @ b) short
       = resolvedPath a short @ short @ resolvedPath b short
   \<and> resolvedPath (a @ ''{efi}'' @ b) short
       = resolvedPath a short @ bootloader short @ resolvedPath b short
   \<and> (\<not> Contains p ''{arch}'' \<and> \<not> Contains p ''{efi}'' \<longrightarrow> resolvedPath p short = p)
   \<and> getArchString archs \<in> set shortForms
   \<and> map bootloader shortForms
       = [''grubx64.efi'', ''grubaa64.efi'', ''grub.0'', ''unknown.efi'', ''unknown.efi'']
   \<and> (other \<notin> {''x86'', ''arm64'', ''x86legacy''} \<longrightarrow> bootloader other = ''unknown.efi'')
   \<and> resolvedPath ''/boot/{arch}/{efi}'' (getArchString [EFI_X86_64]) = ''/boot/x86/grubx64.efi''
   \<and> \<not> Contains (resolvedPath p short) ''{arch}''
   \<and> \<not> Contains (resolvedPath p short) ''{efi}''"
proof (intro conjI impI)
  show "Path (modifiedURL_of u short) = resolvedPath (Path u) short"
    by (rule modifiedURL_of_Path)
  show "resolvedPath p short =
      strings_ReplaceAll (strings_ReplaceAll p ''{arch}'' short) ''{efi}'' (bootloader short)"
    by (rule resolvedPath_eq)
  show "resolvedPath (a @ ''{arch}'' @ b) short
      = resolvedPath a short @ short @ resolvedPath b short"
    by (rule arch_occurrence [OF assms])
  show "resolvedPath (a @ ''{efi}'' @ b) short
      = resolvedPath a short @ bootloader short @ resolvedPath b short"
    by (rule efi_occurrence)
  show "resolvedPath p short = p" if "\<not> Contains p ''{arch}'' \<and> \<not> Contains p ''{efi}''"
    using that by (simp add: no_occurrence)
  show "getArchString archs \<in> set shortForms"
    by (rule getArchString_shortForms)
  show "map bootloader shortForms
      = [''grubx64.efi'', ''grubaa64.efi'', ''grub.0'', ''unknown.efi'', ''unknown.efi'']"
    by (simp add: bootloader_def shortForms_def)
  show "bootloader other = ''unknown.efi''" if "other \<notin> {''x86'', ''arm64'', ''x86legacy''}"
    using that by (simp add: bootloader_def)
  show "resolvedPath ''/boot/{arch}/{efi}'' (getArchString [EFI_X86_64]) = ''/boot/x86/grubx64.efi''"
    by (rule example_path)
  show "\<not> Contains (resolvedPath p short) ''{arch}''"
    using none_remain [OF assms] by (rule conjunct1)
  show "\<not> Contains (resolvedPath p short) ''{efi}''"
    using none_remain [OF assms] by (rule conjunct2)
qed

theorem C7_placeholder_substitution_witness:
  "Path (modifiedURL_of grub_template ''arm64'') = ''/boot/arm64/grubaa64.efi''
   \<and> resolvedPath ''/pxelinux.0'' ''arm64'' = ''/pxelinux.0''
   \<and> bootloader ''default'' = ''unknown.efi''"
proof -
  have short: "''arm64'' \<in> set shortForms"
    by (simp add: shortForms_def)
  note inst = C7_placeholder_substitution [OF short, where u = grub_template
      and p = "''/pxelinux.0''" and a = "''/boot/''" and b = "''/{efi}''" and archs = "[]"
      and other = "''default''"]
  have plain: "\<not> Contains ''/pxelinux.0'' ''{arch}'' \<and> \<not> Contains ''/pxelinux.0'' ''{efi}''"
    by (simp add: HasPrefix_def)
  have other: "''default'' \<notin> {''x86'', ''arm64'', ''x86legacy''}"
    by simp
  have "resolvedPath (''/boot/'' @ ''{arch}'' @ ''/{efi}'') ''arm64''
      = resolvedPath ''/boot/'' ''arm64'' @ ''arm64'' @ resolvedPath ''/{efi}'' ''arm64''"
    using inst [THEN conjunct2, THEN conjunct2, THEN conjunct1] .
  moreover have "resolvedPath ''/boot/'' ''arm64'' = ''/boot/''"
    by (simp add: resolvedPath_eq strings_ReplaceAll.simps HasPrefix_def)
  moreover have "resolvedPath ''/{efi}'' ''arm64'' = ''/grubaa64.efi''"
    by (simp add: resolvedPath_eq strings_ReplaceAll.simps HasPrefix_def bootloader_def)
  ultimately have "resolvedPath ''/boot/{arch}/{efi}'' ''arm64'' = ''/boot/arm64/grubaa64.efi''"
    by simp
  then have "Path (modifiedURL_of grub_template ''arm64'') = ''/boot/arm64/grubaa64.efi''"
    using inst [THEN conjunct1] by (simp add: grub_template_def parsed_def)
  moreover have "resolvedPath ''/pxelinux.0'' ''arm64'' = ''/pxelinux.0''"
    using inst [THEN conjunct2, THEN conjunct2, THEN conjunct2, THEN conjunct2,
        THEN conjunct1, THEN mp, OF plain] .
  moreover have "bootloader ''default'' = ''unknown.efi''"
    using inst [THEN conjunct2, THEN conjunct2, THEN conjunct2, THEN conjunct2,
        THEN conjunct2, THEN conjunct2, THEN conjunct2, THEN conjunct1, THEN mp, OF other] .
  ultimately show ?thesis
    by (intro conjI)
qed

section \<open>The DHCPv4 handler of the boot resolver\<close>

lemma generateOptions_bootValues:
  "generateOptions working =
     (map_option OptTFTPServerName (fst (bootValues working)),
      map_option OptBootFileName (snd (bootValues working)))"
  by (simp add: generateOptions_def bootValues_def)

lemma bootValues_modifiedURL:
  "bootValues (modifiedURL_of u short) =
     (if Scheme u \<in> {''http'', ''https'', ''ftp''}
      then (None, Some (URL_String (modifiedURL_of u short)))
      else (Some (Host u), Some (resolvedPath (Path u) short)))"
  by (simp add: bootValues_def modifiedURL_of_Path) (simp add: modifiedURL_of_eq)

lemma updateOptions_Some:
  "updateOptions (map_option OptTFTPServerName tftpserver) (map_option OptBootFileName bootfile)
       req (Some r) =
     Inr (Some (r\<lparr>Options := emitted (tftpserver, bootfile) req (Options r)\<rparr>))"
  by (cases r; cases tftpserver; cases bootfile)
    (auto simp: updateOptions_def Options_Update_def emitted_def OptTFTPServerName_def
      OptBootFileName_def OptionTFTPServerName_def OptionBootfileName_def fun_eq_iff)

lemma updateOptions_not_requested:
  "\<not> IsOptionRequested req OptionTFTPServerName \<Longrightarrow>
   \<not> IsOptionRequested req OptionBootfileName \<Longrightarrow>
     updateOptions tftpOpt bootOpt req resp = Inr resp"
  by (simp add: updateOptions_def split: option.splits)

lemma nbp_handler4_Some:
  "nbp_handler4 u req (Some r) =
     Inr ((Some (r\<lparr>Options :=
              emitted (bootValues (modifiedURL_of u (getArchString (ClientArch req))))
                req (Options r)\<rparr>), True), u)"
  by (simp add: nbp_handler4_def generateOptions_bootValues updateOptions_Some Let_def)

lemma nbp_handler4_not_requested:
  "\<not> IsOptionRequested req OptionTFTPServerName \<Longrightarrow>
   \<not> IsOptionRequested req OptionBootfileName \<Longrightarrow>
     nbp_handler4 u req resp = Inr ((resp, True), u)"
  by (simp add: nbp_handler4_def updateOptions_not_requested Let_def split: prod.splits)

lemma nbp_handler4_result:
  "nbp_handler4 u req resp = Inr ((result, stop), after) \<Longrightarrow> stop = True \<and> after = u"
  by (auto simp: nbp_handler4_def Let_def split: prod.splits sum.splits)

lemma emitted_idem: "emitted selection req (emitted selection req opts) = emitted selection req opts"
  by (auto simp: emitted_def fun_eq_iff)

lemma emitted_both:
  "IsOptionRequested req OptionTFTPServerName \<Longrightarrow> IsOptionRequested req OptionBootfileName \<Longrightarrow>
     emitted (tftpserver, Some bootfile) req opts =
       (case tftpserver of
          None \<Rightarrow> opts(OptionBootfileName \<mapsto> bootfile)
        | Some host \<Rightarrow> opts(OptionTFTPServerName \<mapsto> host, OptionBootfileName \<mapsto> bootfile))"
  by (auto simp: emitted_def fun_eq_iff OptionTFTPServerName_def OptionBootfileName_def
      split: option.splits)

lemma example_tftp:
  "generateOptions (modifiedURL_of tftp_template (getArchString [INTEL_X86PC])) =
     (Some \<lparr>Code = 66, Value = ''10.0.0.1''\<rparr>, Some \<lparr>Code = 67, Value = ''/pxe/x86legacy''\<rparr>)"
  by (simp add: generateOptions_def modifiedURL_of_eq tftp_template_def parsed_def
      getArchString_def INTEL_X86PC_def EFI_X86_64_def EFI_ARM64_def bootloader_def
      strings_ReplaceAll.simps HasPrefix_def OptTFTPServerName_def OptBootFileName_def
      OptionTFTPServerName_def OptionBootfileName_def)

lemma example_http_URL:
  "URL_String (modifiedURL_of http_template ''arm64'') = ''http://boot.example/arm64.ipxe''"
  by (simp add: http_template_def parsed_def modifiedURL_of_eq bootloader_def
      strings_ReplaceAll.simps HasPrefix_def URL_String_def EscapedPath_def escape_def
      escape_char_def shouldEscape_def alphanum_def validEncoded_def)

lemma example_http:
  "generateOptions (modifiedURL_of http_template (getArchString [EFI_ARM64])) =
     (None, Some \<lparr>Code = 67, Value = ''http://boot.example/arm64.ipxe''\<rparr>)"
proof -
  have "getArchString [EFI_ARM64] = ''arm64''"
    by (simp add: getArchString_def EFI_X86_64_def EFI_ARM64_def)
  moreover have "Scheme (modifiedURL_of http_template ''arm64'') = ''http''"
    by (simp add: modifiedURL_of_eq http_template_def parsed_def)
  ultimately show ?thesis
    by (simp add: generateOptions_def example_http_URL OptBootFileName_def
        OptionBootfileName_def)
qed

text \<open>
  C5. The substitution changes the path only, so the template's scheme decides. For http,
  https and ftp the candidate options are no transfer-server option and a boot-file option
  (code 67) whose value is the whole string of the working URL; for every other scheme
  they are a transfer-server option (code 66) with the template's host and a boot-file
  option with the resolved path, the scheme appearing nowhere. A reply to a client that
  requested both codes gets exactly these values. The two examples of the specification
  evaluate as stated.
\<close>

theorem C5_scheme_branching:
  "generateOptions (modifiedURL_of u short) =
     (if Scheme u \<in> {''http'', ''https'', ''ftp''}
      then (None, Some \<lparr>Code = 67, Value = URL_String (modifiedURL_of u short)\<rparr>)
      else (Some \<lparr>Code = 66, Value = Host u\<rparr>,
            Some \<lparr>Code = 67, Value = resolvedPath (Path u) short\<rparr>))
   \<and> (IsOptionRequested req 66 \<and> IsOptionRequested req 67 \<longrightarrow>
        nbp_handler4 u req (Some r) =
          Inr ((Some (r\<lparr>Options :=
             (if Scheme u \<in> {''http'', ''https'', ''ftp''}
              then (Options r)(67 \<mapsto> URL_String (modifiedURL_of u (getArchString (ClientArch req))))
              else (Options r)(66 \<mapsto> Host u,
                     67 \<mapsto> resolvedPath (Path u) (getArchString (ClientArch req))))\<rparr>),
            True), u))
   \<and> generateOptions (modifiedURL_of tftp_template (getArchString [INTEL_X86PC])) =
       (Some \<lparr>Code = 66, Value = ''10.0.0.1''\<rparr>, Some \<lparr>Code = 67, Value = ''/pxe/x86legacy''\<rparr>)
   \<and> generateOptions (modifiedURL_of http_template (getArchString [EFI_ARM64])) =
       (None, Some \<lparr>Code = 67, Value = ''http://boot.example/arm64.ipxe''\<rparr>)"
proof (intro conjI impI)
  show "generateOptions (modifiedURL_of u short) =
     (if Scheme u \<in> {''http'', ''https'', ''ftp''}
      then (None, Some \<lparr>Code = 67, Value = URL_String (modifiedURL_of u short)\<rparr>)
      else (Some \<lparr>Code = 66, Value = Host u\<rparr>,
            Some \<lparr>Code = 67, Value = resolvedPath (Path u) short\<rparr>))"
    by (simp add: generateOptions_bootValues bootValues_modifiedURL OptTFTPServerName_def
        OptBootFileName_def OptionTFTPServerName_def OptionBootfileName_def)
  show "nbp_handler4 u req (Some r) =
          Inr ((Some (r\<lparr>Options :=
             (if Scheme u \<in> {''http'', ''https'', ''ftp''}
              then (Options r)(67 \<mapsto> URL_String (modifiedURL_of u (getArchString (ClientArch req))))
              else (Options r)(66 \<mapsto> Host u,
                     67 \<mapsto> resolvedPath (Path u) (getArchString (ClientArch req))))\<rparr>),
            True), u)"
    if "IsOptionRequested req 66 \<and> IsOptionRequested req 67"
  proof -
    from that have req: "IsOptionRequested req OptionTFTPServerName"
      "IsOptionRequested req OptionBootfileName"
      by (simp_all add: OptionTFTPServerName_def OptionBootfileName_def)
    show ?thesis
      unfolding nbp_handler4_Some bootValues_modifiedURL
      by (simp add: emitted_both [OF req] OptionTFTPServerName_def OptionBootfileName_def)
  qed
  show "generateOptions (modifiedURL_of tftp_template (getArchString [INTEL_X86PC])) =
       (Some \<lparr>Code = 66, Value = ''10.0.0.1''\<rparr>, Some \<lparr>Code = 67, Value = ''/pxe/x86legacy''\<rparr>)"
    by (rule example_tftp)
  show "generateOptions (modifiedURL_of http_template (getArchString [EFI_ARM64])) =
       (None, Some \<lparr>Code = 67, Value = ''http://boot.example/arm64.ipxe''\<rparr>)"
    by (rule example_http)
qed

theorem C5_scheme_branching_witness:
  "nbp_handler4 http_template (pxe_request [EFI_ARM64] [66, 67]) (Some empty_reply4) =
     Inr ((Some \<lparr>Options = [67 \<mapsto> ''http://boot.example/arm64.ipxe'']\<rparr>, True), http_template)"
proof -
  have asked: "IsOptionRequested (pxe_request [EFI_ARM64] [66, 67]) 66
      \<and> IsOptionRequested (pxe_request [EFI_ARM64] [66, 67]) 67"
    by (simp add: pxe_request_def IsOptionRequested_def)
  have arch: "getArchString (ClientArch (pxe_request [EFI_ARM64] [66, 67])) = ''arm64''"
    by (simp add: pxe_request_def getArchString_def EFI_X86_64_def EFI_ARM64_def)
  have scheme: "Scheme http_template = ''http''"
    by (simp add: http_template_def parsed_def)
  show ?thesis
    using C5_scheme_branching [where u = http_template and short = "''arm64''"
        and req = "pxe_request [EFI_ARM64] [66, 67]" and r = empty_reply4,
        THEN conjunct2, THEN conjunct1, THEN mp, OF asked]
    by (simp add: arch scheme example_http_URL empty_reply4_def)
qed

section \<open>The DHCPv6 handler of the boot resolver\<close>

lemma additions_Cons:
  "additions urlopt paramopt (code # codes) =
     (if code = OptionBootfileURL then [urlopt]
      else if code = OptionBootfileParam
        then (case paramopt of Some param \<Rightarrow> [param] | None \<Rightarrow> [])
      else []) @ additions urlopt paramopt codes"
  by (simp add: additions_def)

lemma addRequested_Some:
  "addRequested urlopt paramopt codes (Some r) =
     Inr (Some (r\<lparr>Options6 := Options6 r @ additions urlopt paramopt codes\<rparr>))"
proof (induction codes arbitrary: r)
  case Nil
  then show ?case by (simp add: additions_def)
next
  case (Cons code codes)
  then show ?case
    by (cases paramopt) (simp_all add: additions_Cons AddOption_def)
qed

lemma addRequested_nothing:
  "OptionBootfileURL \<notin> set codes \<Longrightarrow> OptionBootfileParam \<notin> set codes \<Longrightarrow>
     addRequested urlopt paramopt codes resp = Inr resp"
  by (induction codes) auto

lemma nbpHandler6_Some:
  "opt59 g = Some urlopt \<Longrightarrow> GetInnerMessage req = Inr decap \<Longrightarrow>
     nbpHandler6 g req (Some r) =
       Inr (Some (r\<lparr>Options6 := Options6 r @ additions urlopt (opt60 g) (RequestedOptions decap)\<rparr>),
            True)"
  by (simp add: nbpHandler6_def addRequested_Some)

lemma additions_URL:
  "paramopt \<noteq> Some urlopt \<Longrightarrow>
     urlopt \<in> set (additions urlopt paramopt codes) \<longleftrightarrow> OptionBootfileURL \<in> set codes"
  by (auto simp: additions_def split: option.splits if_splits)

lemma additions_Param:
  "param \<noteq> urlopt \<Longrightarrow>
     param \<in> set (additions urlopt (Some param) codes) \<longleftrightarrow> OptionBootfileParam \<in> set codes"
  by (auto simp: additions_def OptionBootfileParam_def OptionBootfileURL_def split: if_splits)

lemma additions_unconfigured:
  "additions urlopt None codes = replicate (count_list codes OptionBootfileURL) urlopt"
  by (induction codes) (auto simp: additions_def)

lemma nbpHandler6_unconfigured: "opt59 g = None \<Longrightarrow> nbpHandler6 g req resp = Inr (resp, True)"
  by (simp add: nbpHandler6_def)

lemma nbp_setup6_failure:
  "nbp_setup6 url_Parse Query_Get args g = (Some err, after) \<Longrightarrow> after = g"
  by (auto simp: nbp_setup6_def Let_def split: sum.splits if_splits)

section \<open>Boot resolution: option emission, the template, the stop signal\<close>

text \<open>
  C6, as the code has it. On the DHCPv4 path the reply's options after the handler are the
  options before, with the boot-file value under code 67 if that value was computed and
  code 67 counts as requested, and the transfer-server value under code 66 if that value
  was computed and code 66 counts as requested; each of the two is decided on its own. A
  code counts as requested, for the codec, if the client's parameter request list holds
  it, or if the client sent no parameter request list at all: then every code counts. So
  for a client that sent a list, a resolved boot-file value is not written when code 67
  is not in the list; for a client that sent no list, every computed value is written.
  On the DHCPv6 path, with a configured boot-file URL option, a request that decapsulates
  and a reply to write to, the handler appends the URL option once for every occurrence
  of code 59 in the requested codes, and the parameter option once for every occurrence
  of code 60 if a parameter option is configured, and nothing else.
\<close>

theorem C6_emission_gating:
  "updateOptions (map_option OptTFTPServerName tftpserver) (map_option OptBootFileName bootfile)
       req (Some r) =
     Inr (Some (r\<lparr>Options := emitted (tftpserver, bootfile) req (Options r)\<rparr>))
   \<and> emitted (tftpserver, bootfile) req opts 67 =
       (if bootfile \<noteq> None \<and> IsOptionRequested req 67 then bootfile else opts 67)
   \<and> emitted (tftpserver, bootfile) req opts 66 =
       (if tftpserver \<noteq> None \<and> IsOptionRequested req 66 then tftpserver else opts 66)
   \<and> (code \<noteq> 66 \<and> code \<noteq> 67 \<longrightarrow> emitted (tftpserver, bootfile) req opts code = opts code)
   \<and> nbp_handler4 u req (Some r) =
       Inr ((Some (r\<lparr>Options :=
               emitted (bootValues (modifiedURL_of u (getArchString (ClientArch req))))
                 req (Options r)\<rparr>), True), u)
   \<and> snd (bootValues (modifiedURL_of u short)) \<noteq> None
   \<and> (\<not> IsOptionRequested req 67 \<longrightarrow>
        emitted (bootValues (modifiedURL_of u short)) req opts 67 = opts 67)
   \<and> (opt59 g = Some urlopt \<and> GetInnerMessage request = Inr decap \<longrightarrow>
        nbpHandler6 g request (Some reply) =
          Inr (Some (reply\<lparr>Options6 :=
                  Options6 reply @ additions urlopt (opt60 g) (RequestedOptions decap)\<rparr>), True))
   \<and> (param \<noteq> urlopt \<longrightarrow>
        (urlopt \<in> set (additions urlopt (Some param) codes) \<longleftrightarrow> 59 \<in> set codes)
      \<and> (param \<in> set (additions urlopt (Some param) codes) \<longleftrightarrow> 60 \<in> set codes))
   \<and> additions urlopt None codes = replicate (count_list codes 59) urlopt
   \<and> set (additions urlopt paramopt codes) \<subseteq> insert urlopt (set_option paramopt)
   \<and> IsOptionRequested req code =
       (ParameterRequestList req = None \<or> code \<in> explicitlyRequested req)
   \<and> (ParameterRequestList req = Some rq \<longrightarrow>
        emitted (tftpserver, bootfile) req opts 67 =
          (if bootfile \<noteq> None \<and> 67 \<in> set rq then bootfile else opts 67)
      \<and> emitted (tftpserver, bootfile) req opts 66 =
          (if tftpserver \<noteq> None \<and> 66 \<in> set rq then tftpserver else opts 66))
   \<and> (ParameterRequestList req = None \<longrightarrow>
        emitted (tftpserver, bootfile) req opts 67 =
          (if bootfile \<noteq> None then bootfile else opts 67)
      \<and> emitted (tftpserver, bootfile) req opts 66 =
          (if tftpserver \<noteq> None then tftpserver else opts 66))"
proof (intro conjI impI)
  show "updateOptions (map_option OptTFTPServerName tftpserver)
      (map_option OptBootFileName bootfile) req (Some r) =
     Inr (Some (r\<lparr>Options := emitted (tftpserver, bootfile) req (Options r)\<rparr>))"
    by (rule updateOptions_Some)
  show "emitted (tftpserver, bootfile) req opts 67 =
       (if bootfile \<noteq> None \<and> IsOptionRequested req 67 then bootfile else opts 67)"
    by (simp add: emitted_def OptionBootfileName_def OptionTFTPServerName_def)
  show "emitted (tftpserver, bootfile) req opts 66 =
       (if tftpserver \<noteq> None \<and> IsOptionRequested req 66 then tftpserver else opts 66)"
    by (simp add: emitted_def OptionBootfileName_def OptionTFTPServerName_def)
  show "emitted (tftpserver, bootfile) req opts code = opts code"
    if "code \<noteq> 66 \<and> code \<noteq> 67"
    using that by (simp add: emitted_def OptionBootfileName_def OptionTFTPServerName_def)
  show "nbp_handler4 u req (Some r) =
       Inr ((Some (r\<lparr>Options :=
               emitted (bootValues (modifiedURL_of u (getArchString (ClientArch req))))
                 req (Options r)\<rparr>), True), u)"
    by (rule nbp_handler4_Some)
  show "snd (bootValues (modifiedURL_of u short)) \<noteq> None"
    by (simp add: bootValues_def)
  show "emitted (bootValues (modifiedURL_of u short)) req opts 67 = opts 67"
    if "\<not> IsOptionRequested req 67"
    using that by (simp add: emitted_def OptionBootfileName_def OptionTFTPServerName_def)
  show "nbpHandler6 g request (Some reply) =
          Inr (Some (reply\<lparr>Options6 :=
                  Options6 reply @ additions urlopt (opt60 g) (RequestedOptions decap)\<rparr>), True)"
    if "opt59 g = Some urlopt \<and> GetInnerMessage request = Inr decap"
    using that by (simp add: nbpHandler6_Some)
  show "urlopt \<in> set (additions urlopt (Some param) codes) \<longleftrightarrow> 59 \<in> set codes" if "param \<noteq> urlopt"
    using that additions_URL [of "Some param" urlopt codes]
    by (simp add: OptionBootfileURL_def)
  show "param \<in> set (additions urlopt (Some param) codes) \<longleftrightarrow> 60 \<in> set codes" if "param \<noteq> urlopt"
    using that additions_Param [of param urlopt codes]
    by (simp add: OptionBootfileParam_def)
  show "additions urlopt None codes = replicate (count_list codes 59) urlopt"
    by (simp add: additions_unconfigured OptionBootfileURL_def)
  show "set (additions urlopt paramopt codes) \<subseteq> insert urlopt (set_option paramopt)"
    by (auto simp: additions_def split: option.splits if_splits)
  show "IsOptionRequested req code =
       (ParameterRequestList req = None \<or> code \<in> explicitlyRequested req)"
    by (simp add: IsOptionRequested_def explicitlyRequested_def split: option.splits)
  show "emitted (tftpserver, bootfile) req opts 67 =
          (if bootfile \<noteq> None \<and> 67 \<in> set rq then bootfile else opts 67)"
    if "ParameterRequestList req = Some rq"
    using that
    by (simp add: emitted_def IsOptionRequested_def OptionBootfileName_def
        OptionTFTPServerName_def)
  show "emitted (tftpserver, bootfile) req opts 66 =
          (if tftpserver \<noteq> None \<and> 66 \<in> set rq then tftpserver else opts 66)"
    if "ParameterRequestList req = Some rq"
    using that
    by (simp add: emitted_def IsOptionRequested_def OptionBootfileName_def
        OptionTFTPServerName_def)
  show "emitted (tftpserver, bootfile) req opts 67 =
          (if bootfile \<noteq> None then bootfile else opts 67)"
    if "ParameterRequestList req = None"
    using that
    by (simp add: emitted_def IsOptionRequested_def OptionBootfileName_def
        OptionTFTPServerName_def)
  show "emitted (tftpserver, bootfile) req opts 66 =
          (if tftpserver \<noteq> None then tftpserver else opts 66)"
    if "ParameterRequestList req = None"
    using that
    by (simp add: emitted_def IsOptionRequested_def OptionBootfileName_def
        OptionTFTPServerName_def)
qed

text \<open>
  A client whose list holds the transfer-server code only gets no boot-file value although
  one was resolved, and a boot-file value that an earlier handler wrote stays; a DHCPv6
  client that asks for codes 60, 23 and 59 gets the parameter option and the URL option,
  in the order of its request.
\<close>

theorem C6_emission_gating_witness:
  "nbp_handler4 tftp_template (pxe_request [INTEL_X86PC] [66]) (Some empty_reply4) =
     Inr ((Some \<lparr>Options = [66 \<mapsto> ''10.0.0.1'']\<rparr>, True), tftp_template)
   \<and> emitted (bootValues (modifiedURL_of tftp_template ''x86legacy''))
        (pxe_request [INTEL_X86PC] [66]) [67 \<mapsto> ''earlier'', 53 \<mapsto> ''x''] 67 = Some ''earlier''
   \<and> emitted (Some ''10.0.0.1'', Some ''/pxe/x86legacy'')
        (pxe_request [INTEL_X86PC] [66]) [67 \<mapsto> ''earlier'', 53 \<mapsto> ''x''] 53 = Some ''x''
   \<and> nbpHandler6
        \<lparr>opt59 = Some (OptBootFileURL ''http://boot.example/nbp?params=x''),
         opt60 = Some \<lparr>OptionCode = 60, OptionData = ''x''\<rparr>\<rparr>
        (request6_asking [60, 23, 59]) (Some empty_reply6) =
     Inr (Some \<lparr>Options6 = [\<lparr>OptionCode = 60, OptionData = ''x''\<rparr>,
                             OptBootFileURL ''http://boot.example/nbp?params=x'']\<rparr>, True)
   \<and> OptBootFileURL ''http://boot.example/nbp?params=x''
       \<notin> set (additions (OptBootFileURL ''http://boot.example/nbp?params=x'')
                (Some \<lparr>OptionCode = 60, OptionData = ''x''\<rparr>) [60, 23])
   \<and> \<lparr>OptionCode = 60, OptionData = ''x''\<rparr>
       \<in> set (additions (OptBootFileURL ''http://boot.example/nbp?params=x'')
                (Some \<lparr>OptionCode = 60, OptionData = ''x''\<rparr>) [60, 23])
   \<and> emitted (Some ''10.0.0.1'', Some ''/pxe/x86legacy'')
        (pxe_request [INTEL_X86PC] [66]) [67 \<mapsto> ''earlier'', 53 \<mapsto> ''x''] 66 = Some ''10.0.0.1''"
proof -
  let ?url = "OptBootFileURL ''http://boot.example/nbp?params=x''"
  let ?par = "\<lparr>OptionCode = 60, OptionData = ''x''\<rparr>"
  let ?g = "\<lparr>opt59 = Some ?url, opt60 = Some ?par\<rparr>"
  note inst = C6_emission_gating [where u = tftp_template
      and req = "pxe_request [INTEL_X86PC] [66]" and r = empty_reply4
      and tftpserver = "Some ''10.0.0.1''" and bootfile = "Some ''/pxe/x86legacy''"
      and opts = "[67 \<mapsto> ''earlier'', 53 \<mapsto> ''x'']" and code = 53
      and short = "''x86legacy''" and g = ?g and urlopt = ?url
      and request = "request6_asking [60, 23, 59]"
      and decap = "\<lparr>RequestedOptions = [60, 23, 59]\<rparr>" and reply = empty_reply6
      and param = ?par and codes = "[60, 23]" and paramopt = None and rq = "[66]"]
  have vals: "bootValues (modifiedURL_of tftp_template
      (getArchString (ClientArch (pxe_request [INTEL_X86PC] [66]))))
      = (Some ''10.0.0.1'', Some ''/pxe/x86legacy'')"
    by (simp add: bootValues_def modifiedURL_of_eq tftp_template_def parsed_def pxe_request_def IsOptionRequested_def
        getArchString_def INTEL_X86PC_def EFI_X86_64_def EFI_ARM64_def bootloader_def
        strings_ReplaceAll.simps HasPrefix_def)
  have "emitted (Some ''10.0.0.1'', Some ''/pxe/x86legacy'') (pxe_request [INTEL_X86PC] [66])
      Map.empty = [66 \<mapsto> ''10.0.0.1'']"
    by (auto simp: emitted_def pxe_request_def IsOptionRequested_def fun_eq_iff OptionBootfileName_def
        OptionTFTPServerName_def)
  then have a: "nbp_handler4 tftp_template (pxe_request [INTEL_X86PC] [66]) (Some empty_reply4) =
     Inr ((Some \<lparr>Options = [66 \<mapsto> ''10.0.0.1'']\<rparr>, True), tftp_template)"
    using inst [THEN conjunct2, THEN conjunct2, THEN conjunct2, THEN conjunct2, THEN conjunct1]
    by (simp add: vals empty_reply4_def)
  have unasked: "\<not> IsOptionRequested (pxe_request [INTEL_X86PC] [66]) 67"
    by (simp add: pxe_request_def IsOptionRequested_def)
  have b: "emitted (bootValues (modifiedURL_of tftp_template ''x86legacy''))
        (pxe_request [INTEL_X86PC] [66]) [67 \<mapsto> ''earlier'', 53 \<mapsto> ''x''] 67 = Some ''earlier''"
    using inst [THEN conjunct2, THEN conjunct2, THEN conjunct2, THEN conjunct2, THEN conjunct2,
        THEN conjunct2, THEN conjunct1, THEN mp, OF unasked]
    by simp
  have neither: "(53 :: OptionCode4) \<noteq> 66 \<and> (53 :: OptionCode4) \<noteq> 67"
    by simp
  have c: "emitted (Some ''10.0.0.1'', Some ''/pxe/x86legacy'')
        (pxe_request [INTEL_X86PC] [66]) [67 \<mapsto> ''earlier'', 53 \<mapsto> ''x''] 53 = Some ''x''"
    using inst [THEN conjunct2, THEN conjunct2, THEN conjunct2, THEN conjunct1, THEN mp,
        OF neither]
    by simp
  have pre: "opt59 ?g = Some ?url
      \<and> GetInnerMessage (request6_asking [60, 23, 59]) = Inr \<lparr>RequestedOptions = [60, 23, 59]\<rparr>"
    by (simp add: request6_asking_def)
  have d: "nbpHandler6 ?g (request6_asking [60, 23, 59]) (Some empty_reply6) =
     Inr (Some \<lparr>Options6 = [?par, ?url]\<rparr>, True)"
    using inst [THEN conjunct2, THEN conjunct2, THEN conjunct2, THEN conjunct2, THEN conjunct2,
        THEN conjunct2, THEN conjunct2, THEN conjunct1, THEN mp, OF pre]
    by (simp add: additions_def empty_reply6_def OptionBootfileURL_def OptionBootfileParam_def)
  have differ: "?par \<noteq> ?url"
    by (simp add: OptBootFileURL_def)
  have e: "?url \<notin> set (additions ?url (Some ?par) [60, 23])"
    using inst [THEN conjunct2, THEN conjunct2, THEN conjunct2, THEN conjunct2, THEN conjunct2,
        THEN conjunct2, THEN conjunct2, THEN conjunct2, THEN conjunct1, THEN mp, OF differ,
        THEN conjunct1]
    by simp
  have f: "?par \<in> set (additions ?url (Some ?par) [60, 23])"
    using inst [THEN conjunct2, THEN conjunct2, THEN conjunct2, THEN conjunct2, THEN conjunct2,
        THEN conjunct2, THEN conjunct2, THEN conjunct2, THEN conjunct1, THEN mp, OF differ,
        THEN conjunct2]
    by simp
  have listed: "ParameterRequestList (pxe_request [INTEL_X86PC] [66]) = Some [66]"
    by (simp add: pxe_request_def)
  have g: "emitted (Some ''10.0.0.1'', Some ''/pxe/x86legacy'')
        (pxe_request [INTEL_X86PC] [66]) [67 \<mapsto> ''earlier'', 53 \<mapsto> ''x''] 66 = Some ''10.0.0.1''"
    using inst [THEN conjunct2, THEN conjunct2, THEN conjunct2, THEN conjunct2, THEN conjunct2,
        THEN conjunct2, THEN conjunct2, THEN conjunct2, THEN conjunct2, THEN conjunct2,
        THEN conjunct2, THEN conjunct2, THEN conjunct1, THEN mp, OF listed, THEN conjunct2]
    by simp
  show ?thesis
    using a b c d e f g by (intro conjI)
qed

text \<open>
  The claim as the specification words it, with the option codes that the client requested
  explicitly, fails for a request that carries no parameter request list: the client asked
  for no code, and the handler writes both the transfer-server and the boot-file value.
\<close>

theorem C6_request_without_list_counterexample:
  "explicitlyRequested (request_without_list [INTEL_X86PC]) = {}
   \<and> nbp_handler4 tftp_template (request_without_list [INTEL_X86PC]) (Some empty_reply4) =
       Inr ((Some \<lparr>Options = [66 \<mapsto> ''10.0.0.1'', 67 \<mapsto> ''/pxe/x86legacy'']\<rparr>, True),
            tftp_template)"
proof -
  have vals: "bootValues (modifiedURL_of tftp_template
      (getArchString (ClientArch (request_without_list [INTEL_X86PC]))))
      = (Some ''10.0.0.1'', Some ''/pxe/x86legacy'')"
    by (simp add: bootValues_def modifiedURL_of_eq tftp_template_def parsed_def
        request_without_list_def getArchString_def INTEL_X86PC_def EFI_X86_64_def
        EFI_ARM64_def bootloader_def strings_ReplaceAll.simps HasPrefix_def)
  have "emitted (Some ''10.0.0.1'', Some ''/pxe/x86legacy'') (request_without_list [INTEL_X86PC])
      Map.empty = [66 \<mapsto> ''10.0.0.1'', 67 \<mapsto> ''/pxe/x86legacy'']"
    by (auto simp: emitted_def request_without_list_def IsOptionRequested_def fun_eq_iff
        OptionBootfileName_def OptionTFTPServerName_def)
  then have "nbp_handler4 tftp_template (request_without_list [INTEL_X86PC]) (Some empty_reply4) =
       Inr ((Some \<lparr>Options = [66 \<mapsto> ''10.0.0.1'', 67 \<mapsto> ''/pxe/x86legacy'']\<rparr>, True),
            tftp_template)"
    by (simp add: nbp_handler4_Some vals empty_reply4_def)
  moreover have "explicitlyRequested (request_without_list [INTEL_X86PC]) = {}"
    by (simp add: explicitlyRequested_def request_without_list_def)
  ultimately show ?thesis
    by (intro conjI)
qed

text \<open>
  The closure on the explicit store. If \<open>u\<close> points to a URL, the call adds one cell, the
  working copy with the resolved path, and returns what the closure returns as a function
  of the pointed-to value; if \<open>u\<close> dangles, the call panics and the store is as before.
\<close>

lemma deref_Inr: "deref h u = Inr t \<longleftrightarrow> u < length h \<and> h ! u = t"
  by (simp add: deref_def)

lemma deref_append: "deref h u = Inr t \<Longrightarrow> deref (h @ tail) u = Inr t"
  by (simp add: deref_def nth_append split: if_splits)

lemma nbp_handler4_store_eq:
  assumes "deref h u = Inr template"
  shows "nbp_handler4_store u h req resp =
     (map_sum id fst (nbp_handler4 template req resp),
      h @ [modifiedURL_of template (getArchString (ClientArch req))])"
  using assms
  by (simp add: nbp_handler4_store_def nbp_handler4_def modifiedURL_of_def declare_var_def
      assign_Path_def Let_def split: sum.splits prod.splits)

lemma nbp_handler4_store_dangling:
  assumes "deref h u = Inl p"
  shows "nbp_handler4_store u h req resp = (Inl p, h)"
  using assms by (simp add: nbp_handler4_store_def)

text \<open>
  C9. The handler leaves the configured template as it found it. On the store of URL
  objects, with the captured pointer \<open>u\<close>: whatever the call returns, and also when it
  panics, every cell that existed before the call holds after the call what it held
  before, and \<open>u\<close> points to what it pointed to. If \<open>u\<close> points to the template, then
  after the call it points to the template still, with its scheme, host, path and query;
  the one change of the store is a new cell, the request's working copy, which is the
  template with the resolved path; the call returns what the closure returns as a
  function of the template's value; a second call with the same request and reply, on the
  store that the first call left, returns the same and resolves to the same working copy;
  and a call on the reply that the first call produced returns that reply again. An
  assignment of another path through \<open>u\<close> itself would have changed the template.
\<close>

theorem C9_template_unchanged:
  "take (length h) (snd (nbp_handler4_store u h req resp)) = h
   \<and> deref (snd (nbp_handler4_store u h req resp)) u = deref h u
   \<and> (deref h u = Inr template \<longrightarrow>
        snd (nbp_handler4_store u h req resp)
          = h @ [template\<lparr>Path := resolvedPath (Path template) (getArchString (ClientArch req))\<rparr>]
      \<and> deref (snd (nbp_handler4_store u h req resp)) u = Inr template
      \<and> fst (nbp_handler4_store u h req resp) = map_sum id fst (nbp_handler4 template req resp)
      \<and> fst (nbp_handler4_store u (snd (nbp_handler4_store u h req resp)) req resp)
          = fst (nbp_handler4_store u h req resp)
      \<and> last (snd (nbp_handler4_store u (snd (nbp_handler4_store u h req resp)) req resp))
          = last (snd (nbp_handler4_store u h req resp))
      \<and> (fst (nbp_handler4_store u h req (Some r)) = Inr (Some changed, True) \<longrightarrow>
           fst (nbp_handler4_store u (snd (nbp_handler4_store u h req (Some r))) req
                  (Some changed))
             = Inr (Some changed, True))
      \<and> (s \<noteq> Path template \<longrightarrow> deref (assign_Path h u s) u \<noteq> Inr template))"
proof (intro conjI impI)
  show "take (length h) (snd (nbp_handler4_store u h req resp)) = h"
  proof (cases "deref h u")
    case (Inl p)
    then show ?thesis
      by (simp add: nbp_handler4_store_dangling)
  next
    case (Inr t)
    then show ?thesis
      by (simp add: nbp_handler4_store_eq)
  qed
  show "deref (snd (nbp_handler4_store u h req resp)) u = deref h u"
  proof (cases "deref h u")
    case (Inl p)
    then show ?thesis
      by (simp add: nbp_handler4_store_dangling)
  next
    case (Inr t)
    then show ?thesis
      by (simp add: nbp_handler4_store_eq deref_append)
  qed
next
  assume template: "deref h u = Inr template"
  let ?m = "modifiedURL_of template (getArchString (ClientArch req))"
  have first: "nbp_handler4_store u h req answer =
      (map_sum id fst (nbp_handler4 template req answer), h @ [?m])" for answer
    using template by (rule nbp_handler4_store_eq)
  have still: "deref (h @ [?m]) u = Inr template"
    using template by (rule deref_append)
  have second: "nbp_handler4_store u (h @ [?m]) req answer =
      (map_sum id fst (nbp_handler4 template req answer), (h @ [?m]) @ [?m])" for answer
    using still by (rule nbp_handler4_store_eq)
  show "snd (nbp_handler4_store u h req resp)
      = h @ [template\<lparr>Path := resolvedPath (Path template) (getArchString (ClientArch req))\<rparr>]"
    by (simp add: first modifiedURL_of_eq resolvedPath_eq)
  show "deref (snd (nbp_handler4_store u h req resp)) u = Inr template"
    by (simp add: first still)
  show "fst (nbp_handler4_store u h req resp) = map_sum id fst (nbp_handler4 template req resp)"
    by (simp add: first)
  show "fst (nbp_handler4_store u (snd (nbp_handler4_store u h req resp)) req resp)
      = fst (nbp_handler4_store u h req resp)"
    by (simp add: first second)
  show "last (snd (nbp_handler4_store u (snd (nbp_handler4_store u h req resp)) req resp))
      = last (snd (nbp_handler4_store u h req resp))"
    by (simp add: first second)
  show "fst (nbp_handler4_store u (snd (nbp_handler4_store u h req (Some r))) req (Some changed))
      = Inr (Some changed, True)"
    if "fst (nbp_handler4_store u h req (Some r)) = Inr (Some changed, True)"
  proof -
    from that have "changed = r\<lparr>Options :=
        emitted (bootValues ?m) req (Options r)\<rparr>"
      by (simp add: first nbp_handler4_Some)
    then show ?thesis
      by (simp add: first second nbp_handler4_Some emitted_idem)
  qed
  show "deref (assign_Path h u s) u \<noteq> Inr template" if "s \<noteq> Path template"
  proof
    assume same: "deref (assign_Path h u s) u = Inr template"
    from template have "u < length h" and "h ! u = template"
      by (simp_all add: deref_Inr)
    with same have "template\<lparr>Path := s\<rparr> = template"
      by (simp add: deref_def assign_Path_def)
    then have "Path (template\<lparr>Path := s\<rparr>) = Path template"
      by simp
    with that show False
      by simp
  qed
qed

text \<open>
  With the template \<open>tftp://10.0.0.1/boot/{arch}/{efi}\<close> as the only object of the store, a
  64-bit x86 EFI client that asks for the boot-file option gets \<open>/boot/x86/grubx64.efi\<close>;
  the store then holds the template, unchanged, and the working copy; a second call on
  that store answers the same.
\<close>

theorem C9_template_unchanged_witness:
  "deref [grub_template] 0 = Inr grub_template
   \<and> nbp_handler4_store 0 [grub_template] (pxe_request [EFI_X86_64] [67]) (Some empty_reply4) =
       (Inr (Some \<lparr>Options = [67 \<mapsto> ''/boot/x86/grubx64.efi'']\<rparr>, True),
        [grub_template, grub_template\<lparr>Path := ''/boot/x86/grubx64.efi''\<rparr>])
   \<and> fst (nbp_handler4_store 0 [grub_template, grub_template\<lparr>Path := ''/boot/x86/grubx64.efi''\<rparr>]
          (pxe_request [EFI_X86_64] [67]) (Some empty_reply4)) =
       Inr (Some \<lparr>Options = [67 \<mapsto> ''/boot/x86/grubx64.efi'']\<rparr>, True)
   \<and> fst (nbp_handler4_store 0 [grub_template, grub_template\<lparr>Path := ''/boot/x86/grubx64.efi''\<rparr>]
          (pxe_request [EFI_X86_64] [67])
          (Some \<lparr>Options = [67 \<mapsto> ''/boot/x86/grubx64.efi'']\<rparr>)) =
       Inr (Some \<lparr>Options = [67 \<mapsto> ''/boot/x86/grubx64.efi'']\<rparr>, True)
   \<and> ''/boot'' \<noteq> Path grub_template
   \<and> deref (assign_Path [grub_template] 0 ''/boot'') 0 \<noteq> Inr grub_template"
proof -
  let ?req = "pxe_request [EFI_X86_64] [67]"
  let ?reply = "\<lparr>Options = [67 \<mapsto> ''/boot/x86/grubx64.efi'']\<rparr>"
  let ?copy = "grub_template\<lparr>Path := ''/boot/x86/grubx64.efi''\<rparr>"
  have points: "deref [grub_template] 0 = Inr grub_template"
    by (simp add: deref_def)
  have other: "''/boot'' \<noteq> Path grub_template"
    by (simp add: grub_template_def parsed_def)
  note inst = C9_template_unchanged [where u = 0 and h = "[grub_template]" and req = ?req
      and resp = "Some empty_reply4" and template = grub_template and r = empty_reply4
      and changed = ?reply and s = "''/boot''",
      THEN conjunct2, THEN conjunct2, THEN mp, OF points]
  have path: "resolvedPath (Path grub_template) (getArchString (ClientArch ?req))
      = ''/boot/x86/grubx64.efi''"
    by (simp add: resolvedPath_eq grub_template_def parsed_def pxe_request_def
        getArchString_def EFI_X86_64_def bootloader_def strings_ReplaceAll.simps HasPrefix_def)
  have vals: "bootValues (modifiedURL_of grub_template (getArchString (ClientArch ?req)))
      = (Some ''10.0.0.1'', Some ''/boot/x86/grubx64.efi'')"
    by (simp add: bootValues_def modifiedURL_of_eq grub_template_def parsed_def pxe_request_def
        getArchString_def EFI_X86_64_def bootloader_def strings_ReplaceAll.simps HasPrefix_def)
  have "emitted (Some ''10.0.0.1'', Some ''/boot/x86/grubx64.efi'') ?req Map.empty
      = [67 \<mapsto> ''/boot/x86/grubx64.efi'']"
    by (auto simp: emitted_def pxe_request_def IsOptionRequested_def fun_eq_iff
        OptionBootfileName_def OptionTFTPServerName_def)
  then have value_level: "map_sum id fst (nbp_handler4 grub_template ?req (Some empty_reply4))
      = Inr (Some ?reply, True)"
    by (simp add: nbp_handler4_Some vals empty_reply4_def)
  have store: "snd (nbp_handler4_store 0 [grub_template] ?req (Some empty_reply4))
      = [grub_template, ?copy]"
    using inst [THEN conjunct1] by (simp only: path append.simps)
  have answer: "fst (nbp_handler4_store 0 [grub_template] ?req (Some empty_reply4))
      = Inr (Some ?reply, True)"
    using inst [THEN conjunct2, THEN conjunct2, THEN conjunct1] by (simp only: value_level)
  have a: "nbp_handler4_store 0 [grub_template] ?req (Some empty_reply4)
      = (Inr (Some ?reply, True), [grub_template, ?copy])"
    using store answer by (simp add: prod_eq_iff)
  have b: "fst (nbp_handler4_store 0 [grub_template, ?copy] ?req (Some empty_reply4))
      = Inr (Some ?reply, True)"
    using inst [THEN conjunct2, THEN conjunct2, THEN conjunct2, THEN conjunct1]
    by (simp only: store answer)
  have c: "fst (nbp_handler4_store 0 [grub_template, ?copy] ?req (Some ?reply))
      = Inr (Some ?reply, True)"
    using inst [THEN conjunct2, THEN conjunct2, THEN conjunct2, THEN conjunct2, THEN conjunct2,
        THEN conjunct1, THEN mp, OF answer]
    by (simp only: store)
  have d: "deref (assign_Path [grub_template] 0 ''/boot'') 0 \<noteq> Inr grub_template"
    using inst [THEN conjunct2, THEN conjunct2, THEN conjunct2, THEN conjunct2, THEN conjunct2,
        THEN conjunct2, THEN mp, OF other] .
  show ?thesis
    using points a b c other d by (intro conjI)
qed

text \<open>
  C10. The handler that the DHCPv4 setup returns stops the chain on every call: for every
  request and every reply to write to it returns that reply, with the requested options
  set, and stop = true; when the client requested neither code 66 nor code 67 it returns
  the reply it was given, also a nil one, unchanged and with stop = true; and no call
  returns with stop = false.
\<close>

theorem C10_handler4_always_stops:
  assumes "nbp_setup4 url_Parse args = Inr handler"
  shows "\<exists>u. parseArgs url_Parse args = Inr u
     \<and> handler req (Some r) =
         Inr ((Some (r\<lparr>Options :=
                 emitted (bootValues (modifiedURL_of u (getArchString (ClientArch req))))
                   req (Options r)\<rparr>), True), u)
     \<and> (\<not> IsOptionRequested req 66 \<and> \<not> IsOptionRequested req 67 \<longrightarrow>
          handler req resp = Inr ((resp, True), u)
          \<and> handler req (Some r) = Inr ((Some r, True), u))
     \<and> handler req resp \<noteq> Inr ((result, False), after)"
proof -
  from assms obtain u where u: "parseArgs url_Parse args = Inr u" "handler = nbp_handler4 u"
    by (auto simp: nbp_setup4_def split: sum.splits)
  have "handler req resp = Inr ((resp, True), u) \<and> handler req (Some r) = Inr ((Some r, True), u)"
    if "\<not> IsOptionRequested req 66 \<and> \<not> IsOptionRequested req 67"
    using that
    by (simp add: u(2) nbp_handler4_not_requested OptionTFTPServerName_def
        OptionBootfileName_def)
  moreover have "handler req resp \<noteq> Inr ((result, False), after)"
    using nbp_handler4_result [of u req resp result False after] by (auto simp: u(2))
  ultimately show ?thesis
    using u(1) by (auto simp: u(2) nbp_handler4_Some)
qed

theorem C10_handler4_always_stops_witness:
  "nbp_handler4 tftp_template (pxe_request [] []) (Some empty_reply4) =
     Inr ((Some empty_reply4, True), tftp_template)
   \<and> nbp_handler4 tftp_template (pxe_request [] []) None = Inr ((None, True), tftp_template)"
proof -
  have installed: "nbp_setup4 example_Parse [''tftp://10.0.0.1/pxe/{arch}'']
      = Inr (nbp_handler4 tftp_template)"
    by (simp add: nbp_setup4_def parseArgs_def example_Parse_def)
  have parse: "parseArgs example_Parse [''tftp://10.0.0.1/pxe/{arch}''] = Inr tftp_template"
    by (simp add: parseArgs_def example_Parse_def)
  have quiet: "\<not> IsOptionRequested (pxe_request [] []) 66
      \<and> \<not> IsOptionRequested (pxe_request [] []) 67"
    by (simp add: pxe_request_def IsOptionRequested_def)
  from C10_handler4_always_stops [OF installed, where req = "pxe_request [] []"
      and r = empty_reply4 and resp = None and result = None and after = tftp_template]
  obtain u where u: "parseArgs example_Parse [''tftp://10.0.0.1/pxe/{arch}''] = Inr u"
    and res: "\<not> IsOptionRequested (pxe_request [] []) 66
        \<and> \<not> IsOptionRequested (pxe_request [] []) 67 \<longrightarrow>
      nbp_handler4 tftp_template (pxe_request [] []) None = Inr ((None, True), u)
      \<and> nbp_handler4 tftp_template (pxe_request [] []) (Some empty_reply4)
          = Inr ((Some empty_reply4, True), u)"
    by blast
  from u parse have "u = tftp_template" by simp
  with res quiet show ?thesis by simp
qed

text \<open>
  C3, as the code has it. Without a prepared boot-file URL option (at program start, or
  after a setup that failed, which leaves the package variables as they were) the DHCPv6
  handler returns the reply it was given, unchanged and not dropped, for every request and
  every reply; the signal that goes with it is stop = true, as on every other path of this
  plugin, not the continue signal stop = false.
\<close>

theorem C3_no_template_returns_reply_and_stops:
  assumes "opt59 g = None"
  shows "nbpHandler6 g req resp = Inr (resp, True)
     \<and> (nbp_setup6 url_Parse Query_Get args g = (Some err, after) \<longrightarrow>
          after = g \<and> nbpHandler6 after req resp = Inr (resp, True))"
  using assms nbp_setup6_failure [of url_Parse Query_Get args g err after]
  by (auto simp: nbpHandler6_unconfigured)

theorem C3_no_template_returns_reply_and_stops_witness:
  "nbpHandler6 nbp_init (request6_asking [59, 60]) (Some empty_reply6)
     = Inr (Some empty_reply6, True)
   \<and> nbp_setup6 example_Parse (\<lambda>u k. []) [] nbp_init = (Some (WrongArgumentCount 0), nbp_init)
   \<and> nbpHandler6 (snd (nbp_setup6 example_Parse (\<lambda>u k. []) [] nbp_init))
        (request6_asking [59, 60]) (Some empty_reply6)
     = Inr (Some empty_reply6, True)"
proof -
  have unset: "opt59 nbp_init = None"
    by (simp add: nbp_init_def)
  have failed: "nbp_setup6 example_Parse (\<lambda>u k. []) [] nbp_init
      = (Some (WrongArgumentCount 0), nbp_init)"
    by (simp add: nbp_setup6_def parseArgs_def)
  note inst = C3_no_template_returns_reply_and_stops [OF unset,
      where req = "request6_asking [59, 60]" and resp = "Some empty_reply6"
      and url_Parse = example_Parse and Query_Get = "\<lambda>u k. []" and args = "[]"
      and err = "WrongArgumentCount 0" and after = nbp_init]
  have a: "nbpHandler6 nbp_init (request6_asking [59, 60]) (Some empty_reply6)
     = Inr (Some empty_reply6, True)"
    using inst by (rule conjunct1)
  have "nbpHandler6 nbp_init (request6_asking [59, 60]) (Some empty_reply6)
     = Inr (Some empty_reply6, True)"
    using inst [THEN conjunct2, THEN mp, OF failed] by (rule conjunct2)
  then have b: "nbpHandler6 (snd (nbp_setup6 example_Parse (\<lambda>u k. []) [] nbp_init))
        (request6_asking [59, 60]) (Some empty_reply6)
     = Inr (Some empty_reply6, True)"
    by (simp add: failed)
  show ?thesis
    using a failed b by (intro conjI)
qed

text \<open>
  The claim as the specification words it, with the continue signal, fails at program
  start for a request that asks for the boot-file URL: the reply comes back with
  stop = true.
\<close>

theorem C3_continue_signal_counterexample:
  "opt59 nbp_init = None
   \<and> nbpHandler6 nbp_init (request6_asking [59]) (Some empty_reply6)
       \<noteq> Inr (Some empty_reply6, False)
   \<and> nbpHandler6 nbp_init (request6_asking [59]) (Some empty_reply6)
       = Inr (Some empty_reply6, True)"
  by (simp add: nbpHandler6_def nbp_init_def)


end
